theory Spec2Isabelle
  imports Complex_Main "HOL-Library.AList" "HOL-Library.Char_ord" "HOL-Library.List_Lexorder"
    "HOL-Library.Sublist"
begin

section \<open>Values, rows and frames\<close>

text \<open>
  A cell is one value held by the table: a missing value, a number (the number type is
  left open, the parser never computes with it) or a text as the CSV reader returns them,
  and, for the column that \<open>parse_annotation\<close> adds, the lists and dictionaries that
  \<open>bbox_parser\<close> builds.
\<close>

datatype 'n cell
  = NaN
  | Num 'n
  | Str string
  | List "'n cell list"
  | Dict "(string \<times> 'n cell) list"

text \<open>The exceptions that the modelled functions can raise.\<close>

datatype error
  = ParserError
  | AttributeError
  | KeyError
  | NameError
  | JSONDecodeError
  | FileNotFoundError

text \<open>A row is a series indexed by column name; a frame is the list of its rows.\<close>

type_synonym 'n row = "(string \<times> 'n cell) list"
type_synonym 'n frame = "'n row list"

text \<open>A dictionary of lists per group, as \<open>to_dict("index")\<close> returns it, in key order.\<close>

type_synonym 'n annotations = "(string \<times> (string \<times> 'n cell list) list) list"

section \<open>The annotation parser\<close>

text \<open>\<open>bbox_parser(row, columns, name)\<close>: \<open>{name: [row[i] for i in columns]}\<close>.
  \<open>row[i]\<close> raises \<open>KeyError\<close> for a label the row does not have.\<close>

definition bbox_parser :: "'n row \<Rightarrow> string list \<Rightarrow> string \<Rightarrow> error + 'n cell" where
  "bbox_parser row columns name =
     (case those (map (map_of row) columns) of
        None \<Rightarrow> Inl KeyError
      | Some vs \<Rightarrow> Inr (Dict [(name, List vs)]))"

definition names :: "string list" where
  "names = [''Detection'', ''Imagename'', ''Frame_Identifier'', ''TL_x'', ''TL_y'',
            ''BR_x'', ''BR_y'', ''detection_Confidence'', ''Target_Length'', ''Species'',
            ''Confidence'']"

text \<open>
  \<open>pd.read_csv(annotation_file, skiprows=[0, 1], names=names)\<close> on a source given as its
  lines, each line the list of its converted fields (a blank line is the empty list).
  Lines 0 and 1 are skipped by position and blank lines are dropped. The expected number of
  fields is the larger of the number of names and the number of fields of the first data
  line; a line with more fields raises the parser's error, a line with fewer is filled with
  missing values. When the first data line has more fields than there are names, the
  leading surplus columns become the index and the names label the remaining ones.
\<close>

definition data_lines :: "'n cell list list \<Rightarrow> 'n cell list list" where
  "data_lines lines = filter (\<lambda>l. l \<noteq> []) (drop 2 lines)"

definition expected_fields :: "string list \<Rightarrow> 'n cell list list \<Rightarrow> nat" where
  "expected_fields ns ls = (case ls of [] \<Rightarrow> length ns | l # _ \<Rightarrow> max (length l) (length ns))"

definition label_line :: "string list \<Rightarrow> nat \<Rightarrow> 'n cell list \<Rightarrow> 'n row" where
  "label_line ns w l = zip ns (drop (w - length ns) (l @ replicate (w - length l) NaN))"

definition read_csv :: "string list \<Rightarrow> 'n cell list list \<Rightarrow> error + 'n frame" where
  "read_csv ns lines =
     (let ls = data_lines lines; w = expected_fields ns ls in
      if list_ex (\<lambda>l. w < length l) ls then Inl ParserError
      else Inr (map (label_line ns w) ls))"

text \<open>Python's \<open>s.replace(old, new)\<close>: every occurrence of \<open>old\<close>, found from the left
  without overlap, is replaced; an empty \<open>old\<close> matches before every character and at the
  end.\<close>

function str_replace :: "string \<Rightarrow> string \<Rightarrow> string \<Rightarrow> string" where
  "str_replace old new s =
     (if old = [] then new @ concat (map (\<lambda>c. c # new) s)
      else if s = [] then []
      else if prefix old s then new @ str_replace old new (drop (length old) s)
      else hd s # str_replace old new (tl s))"
  by pat_completeness auto
termination
  by (relation "measure (\<lambda>(old, new, s). length s)") auto

declare str_replace.simps [simp del]

text \<open>
  \<open>df[col] = df[col].str.replace(old, new, regex=False)\<close>. The \<open>.str\<close> accessor exists
  only on a column of object type: a column read from a source has that type when it holds
  a text (or when the frame is empty), else \<open>AttributeError\<close> is raised. A text is
  replaced; every other value of the column becomes missing.
\<close>

definition is_Str :: "'n cell \<Rightarrow> bool" where
  "is_Str c = (case c of Str _ \<Rightarrow> True | _ \<Rightarrow> False)"

definition column_cells :: "string \<Rightarrow> 'n frame \<Rightarrow> 'n cell list" where
  "column_cells col df = List.map_filter (\<lambda>row. map_of row col) df"

definition str_replace_cell :: "string \<Rightarrow> string \<Rightarrow> 'n cell \<Rightarrow> 'n cell" where
  "str_replace_cell old new c = (case c of Str s \<Rightarrow> Str (str_replace old new s) | _ \<Rightarrow> NaN)"

definition str_replace_column ::
  "string \<Rightarrow> string \<Rightarrow> string \<Rightarrow> 'n frame \<Rightarrow> error + 'n frame" where
  "str_replace_column col old new df =
     (if list_ex (\<lambda>row. map_of row col = None) df then Inl KeyError
      else if df \<noteq> [] \<and> \<not> list_ex is_Str (column_cells col df) then Inl AttributeError
      else Inr (map (AList.map_entry col (str_replace_cell old new)) df))"

text \<open>\<open>df.apply(f, axis=1)\<close>: the function is applied to every row in turn; the first
  exception ends the call.\<close>

fun apply_rows :: "('n row \<Rightarrow> error + 'n cell) \<Rightarrow> 'n frame \<Rightarrow> error + 'n cell list" where
  "apply_rows f [] = Inr []"
| "apply_rows f (row # df) =
     (case f row of
        Inl e \<Rightarrow> Inl e
      | Inr v \<Rightarrow> (case apply_rows f df of Inl e \<Rightarrow> Inl e | Inr vs \<Rightarrow> Inr (v # vs)))"

text \<open>\<open>df[col] = values\<close>: the column is replaced, or added as the last one.\<close>

definition set_column :: "string \<Rightarrow> 'n cell list \<Rightarrow> 'n frame \<Rightarrow> 'n frame" where
  "set_column col vs df = map (\<lambda>(row, v). AList.update col v row) (zip df vs)"

text \<open>
  \<open>df.groupby(by).agg({c: list, ...}).to_dict("index")\<close>. The group keys are the distinct
  values of the key column in sorted order; a row whose key is missing belongs to no group
  (after the replacement above every key is a text or missing). For each key and each
  aggregated column the values of the rows of that group are listed in row order. A column
  that the frame does not have raises \<open>KeyError\<close>.
\<close>

definition key_of :: "string \<Rightarrow> 'n row \<Rightarrow> string option" where
  "key_of by row = (case map_of row by of Some (Str s) \<Rightarrow> Some s | _ \<Rightarrow> None)"

definition group_keys :: "string \<Rightarrow> 'n frame \<Rightarrow> string list" where
  "group_keys by df = sort (remdups (List.map_filter (key_of by) df))"

definition group_rows :: "string \<Rightarrow> string \<Rightarrow> 'n frame \<Rightarrow> 'n frame" where
  "group_rows by k df = filter (\<lambda>row. key_of by row = Some k) df"

definition agg_list :: "string list \<Rightarrow> 'n frame \<Rightarrow> (string \<times> 'n cell list) list" where
  "agg_list cols g = map (\<lambda>c. (c, column_cells c g)) cols"

definition groupby_agg_to_dict ::
  "string \<Rightarrow> string list \<Rightarrow> 'n frame \<Rightarrow> error + 'n annotations" where
  "groupby_agg_to_dict by cols df =
     (if list_ex (\<lambda>row. list_ex (\<lambda>c. map_of row c = None) (by # cols)) df then Inl KeyError
      else Inr (map (\<lambda>k. (k, agg_list cols (group_rows by k df))) (group_keys by df)))"

definition columns :: "string list" where
  "columns = [''TL_x'', ''BR_y'', ''BR_x'', ''BR_y'', ''BR_x'', ''TL_y'', ''TL_x'', ''TL_y'']"

definition parse_annotation :: "'n cell list list \<Rightarrow> error + 'n annotations" where
  "parse_annotation annotation_file =
     (case read_csv names annotation_file of
        Inl e \<Rightarrow> Inl e
      | Inr df0 \<Rightarrow>
          (case str_replace_column ''Imagename'' ''.jpg'' [] df0 of
             Inl e \<Rightarrow> Inl e
           | Inr imageannotation \<Rightarrow>
               (case apply_rows (\<lambda>row. bbox_parser row columns ''bbox'') imageannotation of
                  Inl e \<Rightarrow> Inl e
                | Inr bs \<Rightarrow>
                    groupby_agg_to_dict ''Imagename'' [''bbox'', ''Species'', ''Confidence'']
                      (set_column ''bbox'' bs imageannotation))))"

section \<open>The specification of the annotation parser\<close>

text \<open>The image identifier of a data line as the specification describes it: the text of
  field 1 (\<open>Imagename\<close>) with \<open>.jpg\<close> removed.\<close>

definition spec_image_id :: "'n cell list \<Rightarrow> string" where
  "spec_image_id l = (case l ! 1 of Str s \<Rightarrow> str_replace ''.jpg'' [] s | _ \<Rightarrow> [])"

text \<open>The bounding box of a data line as the specification orders it:
  \<open>[TL_x, BR_y, BR_x, BR_y, BR_x, TL_y, TL_x, TL_y]\<close>, the fields 3 to 6 of the line being
  \<open>TL_x, TL_y, BR_x, BR_y\<close>.\<close>

definition spec_bbox :: "'n cell list \<Rightarrow> 'n cell list" where
  "spec_bbox l = [l ! 3, l ! 6, l ! 5, l ! 6, l ! 5, l ! 4, l ! 3, l ! 4]"

text \<open>A valid data line has the eleven fields of the schema and a text as image name; a
  valid source has at least one data line and only valid ones.\<close>

definition valid_line :: "'n cell list \<Rightarrow> bool" where
  "valid_line l = (length l = 11 \<and> is_Str (l ! 1))"

definition valid_source :: "'n cell list list \<Rightarrow> bool" where
  "valid_source lines = (data_lines lines \<noteq> [] \<and> list_all valid_line (data_lines lines))"

text \<open>The row of the frame that is grouped, for a valid data line: the labelled fields with
  the image name normalised, followed by the added \<open>bbox\<close> column.\<close>

definition final_row :: "'n cell list \<Rightarrow> 'n row" where
  "final_row l = zip names (l[Suc 0 := Str (spec_image_id l)]) @ [(''bbox'', Dict [(''bbox'', List (spec_bbox l))])]"

text \<open>The grouping as the specification describes it: per image identifier, in sorted
  order of the identifiers, the bounding boxes, species and confidences of the lines with
  that identifier, in line order.\<close>

definition spec_group :: "string \<Rightarrow> 'n cell list list \<Rightarrow> 'n cell list list" where
  "spec_group k ls = filter (\<lambda>l. spec_image_id l = k) ls"

definition spec_annotations :: "'n cell list list \<Rightarrow> 'n annotations" where
  "spec_annotations ls =
     map (\<lambda>k. (k, [(''bbox'', map (\<lambda>l. Dict [(''bbox'', List (spec_bbox l))]) (spec_group k ls)),
                    (''Species'', map (\<lambda>l. l ! 9) (spec_group k ls)),
                    (''Confidence'', map (\<lambda>l. l ! 10) (spec_group k ls))]))
       (sort (remdups (map spec_image_id ls)))"

text \<open>A source of two data lines whose image names hold \<open>.jpg\<close> twice and in the
  middle.\<close>

definition jpg_example :: "real cell list list" where
  "jpg_example =
     [[Str ''# header''], [Str ''# header''],
      [Num 0, Str ''image.jpgfile'', Num 0, Num 1, Num 2, Num 3, Num 4, Num 0.9, Num 0, Str ''cod'', Num 0.8],
      [Num 1, Str ''a.jpg.jpg'', Num 0, Num 1, Num 2, Num 3, Num 4, Num 0.9, Num 0, Str ''cod'', Num 0.7]]"

text \<open>A source of three data lines for two images, the image that sorts last coming
  first.\<close>

definition three_line_source :: "real cell list list" where
  "three_line_source =
     [[Str ''# header''], [Str ''# header''],
      [Num 0, Str ''b.jpg'', Num 0, Num 1, Num 2, Num 3, Num 4, Num 0.9, Num 0, Str ''tuna'', Num 0.9],
      [Num 1, Str ''a.jpg'', Num 0, Num 5, Num 6, Num 7, Num 8, Num 0.9, Num 0, Str ''shark'', Num 0.8],
      [Num 2, Str ''b.jpg'', Num 1, Num 9, Num 10, Num 11, Num 12, Num 0.9, Num 0, Str ''cod'', Num 0.7]]"

text \<open>The example of the specification, with confidences 0.9 and 0.8.\<close>

definition example_source :: "real cell list list" where
  "example_source =
     [[Str ''# header''], [Str ''# header''],
      [Num 0, Str ''img1.jpg'', Num 0, Num 0, Num 0, Num 10, Num 10, Num 0.9, Num 0, Str ''tuna'', Num 0.9],
      [Num 1, Str ''img1.jpg'', Num 0, Num 5, Num 5, Num 15, Num 15, Num 0.9, Num 0, Str ''shark'', Num 0.8]]"

text \<open>A source whose only data line lacks its last field, and one whose only data line has
  a text as \<open>TL_x\<close>.\<close>

definition short_line_source :: "real cell list list" where
  "short_line_source =
     [[Str ''# header''], [Str ''# header''],
      [Num 0, Str ''img1.jpg'', Num 0, Num 1, Num 2, Num 3, Num 4, Num 0.9, Num 0, Str ''cod'']]"

definition text_coordinate_source :: "real cell list list" where
  "text_coordinate_source =
     [[Str ''# header''], [Str ''# header''],
      [Num 0, Str ''img1.jpg'', Num 0, Str ''abc'', Num 2, Num 3, Num 4, Num 0.9, Num 0, Str ''cod'',
       Num 0.8]]"

section \<open>Layers, files and the outside world\<close>

text \<open>
  The map layer of the host application, as far as the functions read it: its name, its
  type, and for the methods called on it the values they return. A call receives a layer
  or \<open>None\<close>; a layer object is true in a condition, so \<open>not layer\<close> holds for \<open>None\<close>
  only.
\<close>

datatype map_layer_type = VectorLayer | RasterLayer | OtherLayer

record extent =
  xMinimum :: real
  xMaximum :: real
  yMinimum :: real
  yMaximum :: real

record layer =
  layer_name :: string
  layer_type :: map_layer_type
  geometry_type_name :: string
  layer_fields :: "(string \<times> string) list"
  featureCount :: int
  crs_authid :: string
  layer_extent :: extent
  layer_source :: string

text \<open>
  The values that the layer functions return: texts, numbers, dictionaries in insertion
  order, a parsed JSON document (of a type left open) and, for name lookup, the objects
  bound at module level.
\<close>

datatype 'j pyval
  = PStr string
  | PInt int
  | PFloat real
  | PDict "(string \<times> 'j pyval) list"
  | PJson 'j
  | PObject string

text \<open>\<open>str(n)\<close> for an integer, as an f-string formats it.\<close>

function str_nat :: "nat \<Rightarrow> string" where
  "str_nat n =
     (if n < 10 then [''0123456789'' ! n]
      else str_nat (n div 10) @ [''0123456789'' ! (n mod 10)])"
  by pat_completeness auto
termination
  by (relation "measure (\<lambda>n. n)") auto

declare str_nat.simps [simp del]

definition str_int :: "int \<Rightarrow> string" where
  "str_int i = (if i < 0 then CHR ''-'' # str_nat (nat (- i)) else str_nat (nat i))"

text \<open>
  The response of the HTTP client: \<open>response.status_code\<close>, \<open>response.text\<close> and the
  outcome of \<open>response.json()\<close>, which raises the decoder's error when the body is not a
  JSON document.
\<close>

record 'j response =
  status_code :: int
  body_text :: string
  json_body :: "'j option"

text \<open>One layer of an OGR data source: name, geometry type, schema and features.\<close>

record ogr_layer =
  GetName :: string
  GetGeomType :: int
  schema :: "string list"
  features :: "string list"

text \<open>
  The collaborators outside the repository, as the answers they give: the name of a new
  temporary file for a suffix; the vector writer, which for a layer, file name, target
  reference system and driver name returns its status code and what it wrote, if anything;
  the OGR drivers and data sources; the exit status and output of the \<open>ogr2ogr\<close> command;
  the HTTP client; a fresh UUID. \<open>NoError\<close> is the writer's status for success.
\<close>

record 'j env =
  tmp_name :: "string \<Rightarrow> string"
  writeAsVectorFormat :: "layer \<Rightarrow> string \<Rightarrow> string option \<Rightarrow> string \<Rightarrow> nat \<times> string option"
  GetDriverByName :: "string \<Rightarrow> bool"
  driver_Open :: "string \<Rightarrow> bool"
  ogr2ogr :: "string \<Rightarrow> int \<times> string option"
  ogr_Open :: "string \<Rightarrow> ogr_layer list option"
  CreateDataSource :: "string \<Rightarrow> bool"
  geojson_text :: "ogr_layer list \<Rightarrow> string"
  post :: "'j pyval \<Rightarrow> string \<Rightarrow> 'j response"
  uuid4_hex :: string

definition NoError :: nat where
  "NoError = 0"

text \<open>The state that the functions change: the files by path, and standard output.\<close>

record state =
  files :: "string \<rightharpoonup> string"
  stdout :: "string list"

definition create_file :: "string \<Rightarrow> state \<Rightarrow> state" where
  "create_file path st = st\<lparr>files := (files st)(path \<mapsto> [])\<rparr>"

definition write_file :: "string \<Rightarrow> string option \<Rightarrow> state \<Rightarrow> state" where
  "write_file path written st =
     (case written of None \<Rightarrow> st | Some c \<Rightarrow> st\<lparr>files := (files st)(path \<mapsto> c)\<rparr>)"

text \<open>\<open>os.remove\<close>, called only on the temporary files that the same call created.\<close>

definition os_remove :: "string \<Rightarrow> state \<Rightarrow> state" where
  "os_remove path st = st\<lparr>files := (files st)(path := None)\<rparr>"

definition print :: "string \<Rightarrow> state \<Rightarrow> state" where
  "print s st = st\<lparr>stdout := stdout st @ [s]\<rparr>"

text \<open>\<open>os.path.join(a, b)\<close> on POSIX paths.\<close>

definition path_join :: "string \<Rightarrow> string \<Rightarrow> string" where
  "path_join a b =
     (if b \<noteq> [] \<and> hd b = CHR ''/'' then b
      else if a = [] \<or> last a = CHR ''/'' then a @ b
      else a @ ''/'' @ b)"

section \<open>Layer information\<close>

text \<open>\<open>fields_info[field.name()] = field.typeName()\<close> for every field in turn.\<close>

definition fields_info :: "(string \<times> string) list \<Rightarrow> (string \<times> 'j pyval) list" where
  "fields_info fs = foldl (\<lambda>d (n, t). AList.update n (PStr t) d) [] fs"

definition get_layer_info :: "layer option \<Rightarrow> 'j pyval" where
  "get_layer_info layer =
     (case layer of
        None \<Rightarrow> PDict [(''error'', PStr ''No active layer selected'')]
      | Some l \<Rightarrow>
          PDict
            ([(''name'', PStr (layer_name l))] @
             (if layer_type l = VectorLayer then
                [(''type'', PStr ''vector''),
                 (''geometry_type'', PStr (geometry_type_name l)),
                 (''fields'', PDict (fields_info (layer_fields l))),
                 (''feature_count'', PInt (featureCount l))]
              else if layer_type l = RasterLayer then [(''type'', PStr ''raster'')]
              else []) @
             [(''crs'', PStr (crs_authid l)),
              (''extent'',
                 PDict [(''xmin'', PFloat (xMinimum (layer_extent l))),
                        (''xmax'', PFloat (xMaximum (layer_extent l))),
                        (''ymin'', PFloat (yMinimum (layer_extent l))),
                        (''ymax'', PFloat (yMaximum (layer_extent l)))]),
              (''data_source'', PStr (layer_source l))]))"

section \<open>Export and upload\<close>

text \<open>\<open>not layer or layer.type() != QgsMapLayer.VectorLayer\<close>.\<close>

definition no_vector_layer :: "layer option \<Rightarrow> bool" where
  "no_vector_layer layer = (case layer of None \<Rightarrow> True | Some l \<Rightarrow> layer_type l \<noteq> VectorLayer)"

definition export_layer_to_geojson ::
  "'j env \<Rightarrow> layer option \<Rightarrow> string \<Rightarrow> state \<Rightarrow> (error + 'j pyval) \<times> state" where
  "export_layer_to_geojson env layer output_path st =
     (case layer of
        None \<Rightarrow> (Inr (PDict [(''error'', PStr ''No active vector layer selected'')]), st)
      | Some l \<Rightarrow>
          if layer_type l \<noteq> VectorLayer
          then (Inr (PDict [(''error'', PStr ''No active vector layer selected'')]), st)
          else
            let output_file = path_join output_path (layer_name l @ ''.geojson'');
                (error, written) = writeAsVectorFormat env l output_file None ''GeoJSON'';
                st1 = write_file output_file written st
            in if error = NoError
               then (Inr (PDict [(''success'',
                        PStr (''Layer exported successfully to '' @ output_file))]), st1)
               else (Inr (PDict [(''error'',
                        PStr (''Failed to export layer. Error code: '' @ str_nat error))]), st1))"

text \<open>The closing lines of the three upload functions: the result is read off the
  response.\<close>

definition api_result :: "'j response \<Rightarrow> error + 'j pyval" where
  "api_result response =
     (if status_code response = 200
      then (case json_body response of
              None \<Rightarrow> Inl JSONDecodeError
            | Some j \<Rightarrow>
                Inr (PDict [(''success'', PStr ''Layer successfully sent to the API''),
                            (''response'', PJson j)]))
      else Inr (PDict [(''error'',
                  PStr (''Failed to send GeoJSON to API. Status code: ''
                        @ str_int (status_code response))),
                (''response'', PStr (body_text response))]))"

definition send_layer_as_geojson ::
  "'j env \<Rightarrow> layer option \<Rightarrow> 'j pyval \<Rightarrow> state \<Rightarrow> (error + 'j pyval) \<times> state" where
  "send_layer_as_geojson env layer api_endpoint st =
     (case layer of
        None \<Rightarrow> (Inr (PDict [(''error'', PStr ''No active vector layer selected'')]), st)
      | Some l \<Rightarrow>
          if layer_type l \<noteq> VectorLayer
          then (Inr (PDict [(''error'', PStr ''No active vector layer selected'')]), st)
          else
            let temp_file = tmp_name env ''.geojson'';
                st1 = create_file temp_file st;
                (error, written) =
                   writeAsVectorFormat env l temp_file (Some (crs_authid l)) ''GeoJSON'';
                st2 = write_file temp_file written st1;
                st3 = (if error = NoError then print ''success again!'' st2 else st2)
            in case files st3 temp_file of
                 None \<Rightarrow> (Inl FileNotFoundError, st3)
               | Some geojson_data \<Rightarrow>
                   (api_result (post env api_endpoint geojson_data), os_remove temp_file st3))"

text \<open>\<open>send_layer_as_geojson_using_gdal_\<close> (the name cannot end with an underscore
  here).\<close>

definition send_layer_as_geojson_using_gdal ::
  "'j env \<Rightarrow> layer option \<Rightarrow> 'j pyval \<Rightarrow> state \<Rightarrow> (error + 'j pyval) \<times> state" where
  "send_layer_as_geojson_using_gdal env layer api_endpoint st =
     (case layer of
        None \<Rightarrow> (Inr (PDict [(''error'', PStr ''No active vector layer selected'')]), st)
      | Some l \<Rightarrow>
          if layer_type l \<noteq> VectorLayer
          then (Inr (PDict [(''error'', PStr ''No active vector layer selected'')]), st)
          else
            let temp_file = tmp_name env ''.gpkg'';
                st1 = create_file temp_file st;
                (error, written) =
                   writeAsVectorFormat env l temp_file (Some (crs_authid l)) ''GPKG'';
                st2 = write_file temp_file written st1
            in if error \<noteq> NoError
               then (Inr (PDict [(''error'',
                        PStr (''Failed to export layer to GPKG. Error code: '' @ str_nat error))]),
                     os_remove temp_file st2)
               else if \<not> GetDriverByName env ''GPKG''
               then (Inr (PDict [(''error'', PStr ''GDAL does not support GeoPackage format'')]),
                     os_remove temp_file st2)
               else if \<not> driver_Open env temp_file
               then (Inr (PDict [(''error'',
                        PStr ''Failed to open the GeoPackage file with OGR'')]),
                     os_remove temp_file st2)
               else
                 let geojson_temp_file = tmp_name env ''.geojson'';
                     st3 = create_file geojson_temp_file st2;
                     (result, converted) = ogr2ogr env temp_file;
                     st4 = write_file geojson_temp_file converted st3
                 in if result \<noteq> 0
                    then (Inr (PDict [(''error'',
                             PStr ''Failed to convert GeoPackage to GeoJSON using ogr2ogr'')]),
                          os_remove geojson_temp_file (os_remove temp_file st4))
                    else
                      case files st4 geojson_temp_file of
                        None \<Rightarrow> (Inl FileNotFoundError, st4)
                      | Some geojson_data \<Rightarrow>
                          (api_result (post env api_endpoint geojson_data),
                           os_remove geojson_temp_file (os_remove temp_file st4)))"

section \<open>Conversion with the OGR bindings\<close>

text \<open>
  The names bound at module level: the imports and the functions of the module. A name
  used in a function is looked up among the function's local names, then here; a name
  found in neither raises \<open>NameError\<close> (no builtin of Python is called
  \<open>api_endpoint\<close>).
\<close>

definition module_globals :: "string list" where
  "module_globals =
     [''np'', ''pd'', ''QgsMapLayer'', ''QgsWkbTypes'', ''QgsVectorFileWriter'',
      ''QgsCoordinateTransformContext'', ''QgsProject'', ''QgsVectorLayerExporter'', ''json'',
      ''requests'', ''StringIO'', ''tempfile'', ''os'', ''ogr'', ''osr'', ''uuid'',
      ''bbox_parser'', ''parse_annotation'', ''get_layer_info'', ''export_layer_to_geojson'',
      ''send_layer_as_geojson'', ''send_layer_as_geojson_using_gdal_'',
      ''convert_to_geojson_using_gdal'']"

definition lookup_name :: "string \<Rightarrow> (string \<times> 'j pyval) list \<Rightarrow> error + 'j pyval" where
  "lookup_name n locals =
     (case map_of locals n of
        Some v \<Rightarrow> Inr v
      | None \<Rightarrow> if n \<in> set module_globals then Inr (PObject n) else Inl NameError)"

text \<open>The loop over the layers of the input: each is created in the output with its name
  and geometry type, then its schema and its features are copied.\<close>

definition copy_layer :: "ogr_layer \<Rightarrow> ogr_layer" where
  "copy_layer input_layer =
     (let output_layer = \<lparr>GetName = GetName input_layer, GetGeomType = GetGeomType input_layer,
                           schema = [], features = []\<rparr>;
          output_layer = output_layer\<lparr>schema := schema output_layer @ schema input_layer\<rparr>
      in foldl (\<lambda>out feature. out\<lparr>features := features out @ [feature]\<rparr>)
           output_layer (features input_layer))"

definition copy_layers :: "ogr_layer list \<Rightarrow> ogr_layer list" where
  "copy_layers input_ds = foldl (\<lambda>output_ds input_layer. output_ds @ [copy_layer input_layer])
                            [] input_ds"

text \<open>The local names of \<open>convert_to_geojson_using_gdal\<close> that are bound when the request
  is made: the parameters and the variables assigned before, the loop variables only when
  the loops ran.\<close>

definition convert_locals ::
  "string \<Rightarrow> string \<Rightarrow> ogr_layer list \<Rightarrow> string \<Rightarrow> (string \<times> 'j pyval) list" where
  "convert_locals input_path output_path input_ds geojson_data =
     [(''input_path'', PStr input_path), (''output_path'', PStr output_path),
      (''geojson_driver'', PObject ''geojson_driver'')] @
     (if input_ds = [] then []
      else [(''i'', PInt (int (length input_ds) - 1)),
            (''input_layer'', PObject ''input_layer''),
            (''output_layer'', PObject ''output_layer'')]) @
     (if list_ex (\<lambda>l. features l \<noteq> []) input_ds then [(''feature'', PObject ''feature'')]
      else []) @
     [(''f'', PObject ''f''), (''geojson_data'', PStr geojson_data),
      (''headers'', PDict [(''Content-Type'', PStr ''application/json'')])]"

definition convert_to_geojson_using_gdal ::
  "'j env \<Rightarrow> string \<Rightarrow> string option \<Rightarrow> state \<Rightarrow> (error + 'j pyval) \<times> state" where
  "convert_to_geojson_using_gdal env input_path output_path0 st =
     (let output_path =
            (case output_path0 of None \<Rightarrow> uuid4_hex env @ ''.geojson'' | Some p \<Rightarrow> p)
      in case ogr_Open env input_path of
           None \<Rightarrow> (Inr (PStr (''Failed to open input file: '' @ input_path)), st)
         | Some input_ds \<Rightarrow>
             if \<not> GetDriverByName env ''GeoJSON''
             then (Inr (PStr ''GDAL GeoJSON driver not found''), st)
             else if \<not> CreateDataSource env output_path
             then (Inr (PStr (''Failed to create output GeoJSON file: '' @ output_path)), st)
             else
               let output_ds = copy_layers input_ds;
                   st1 = write_file output_path (Some (geojson_text env output_ds)) st
               in case files st1 output_path of
                    None \<Rightarrow> (Inl FileNotFoundError, st1)
                  | Some geojson_data \<Rightarrow>
                      let st2 = os_remove output_path st1
                      in case lookup_name ''api_endpoint''
                                (convert_locals input_path output_path input_ds geojson_data) of
                           Inl e \<Rightarrow> (Inl e, st2)
                         | Inr api_endpoint \<Rightarrow>
                             (api_result (post env api_endpoint geojson_data), st2))"

section \<open>Sample inputs for the layer functions\<close>

text \<open>A vector layer, an empty file system, and an outside world in which the writer
  returns a given status code and the endpoint a given response.\<close>

definition sample_layer :: layer where
  "sample_layer =
     \<lparr>layer_name = ''stations'', layer_type = VectorLayer, geometry_type_name = ''Point'',
      layer_fields = [(''id'', ''Integer'')], featureCount = 3, crs_authid = ''EPSG:4326'',
      layer_extent = \<lparr>xMinimum = 0, xMaximum = 1, yMinimum = 0, yMaximum = 1\<rparr>,
      layer_source = ''stations.shp''\<rparr>"

definition empty_state :: state where
  "empty_state = \<lparr>files = Map.empty, stdout = []\<rparr>"

definition sample_env :: "nat \<Rightarrow> unit response \<Rightarrow> unit env" where
  "sample_env code r =
     \<lparr>tmp_name = (\<lambda>suffix. ''/tmp/tmp0'' @ suffix),
      writeAsVectorFormat = (\<lambda>l path crs driver. (code, if code = 0 then Some ''{}'' else None)),
      GetDriverByName = (\<lambda>n. True),
      driver_Open = (\<lambda>p. True),
      ogr2ogr = (\<lambda>p. (0, Some ''{}'')),
      ogr_Open = (\<lambda>p. Some []),
      CreateDataSource = (\<lambda>p. True),
      geojson_text = (\<lambda>ds. ''{}''),
      post = (\<lambda>url content. r),
      uuid4_hex = ''0123456789abcdef0123456789abcdef''\<rparr>"

text \<open>Three responses: a JSON body with status 200, a plain body with status 200, and
  status 404.\<close>

definition ok_response :: "unit response" where
  "ok_response = \<lparr>status_code = 200, body_text = ''{}'', json_body = Some ()\<rparr>"

definition plain_response :: "unit response" where
  "plain_response = \<lparr>status_code = 200, body_text = ''OK'', json_body = None\<rparr>"

definition error_response :: "unit response" where
  "error_response = \<lparr>status_code = 404, body_text = ''Not Found'', json_body = None\<rparr>"

text \<open>What \<open>send_layer_as_geojson\<close> posts: the content of the temporary file after the
  writer ran.\<close>

definition geojson_sent :: "'j env \<Rightarrow> layer \<Rightarrow> string" where
  "geojson_sent env l =
     (case snd (writeAsVectorFormat env l (tmp_name env ''.geojson'') (Some (crs_authid l))
                  ''GeoJSON'') of
        None \<Rightarrow> [] | Some c \<Rightarrow> c)"

text \<open>For the upload through a GeoPackage: every step before the request succeeds, and
  what is then posted.\<close>

definition gdal_reaches_upload :: "'j env \<Rightarrow> layer \<Rightarrow> bool" where
  "gdal_reaches_upload env l =
     (fst (writeAsVectorFormat env l (tmp_name env ''.gpkg'') (Some (crs_authid l)) ''GPKG'')
        = NoError
      \<and> GetDriverByName env ''GPKG'' \<and> driver_Open env (tmp_name env ''.gpkg'')
      \<and> fst (ogr2ogr env (tmp_name env ''.gpkg'')) = 0)"

definition gdal_geojson_sent :: "'j env \<Rightarrow> string" where
  "gdal_geojson_sent env =
     (case snd (ogr2ogr env (tmp_name env ''.gpkg'')) of None \<Rightarrow> [] | Some c \<Rightarrow> c)"

text \<open>The number of fields a data line may have: the larger of eleven and the number of
  fields of the first data line.\<close>

definition spec_width :: "'n cell list list \<Rightarrow> nat" where
  "spec_width ls = (case ls of [] \<Rightarrow> 11 | l # _ \<Rightarrow> max 11 (length l))"

text \<open>A data line with fewer than eleven fields, filled up with missing values.\<close>

definition spec_pad :: "'n cell list \<Rightarrow> 'n cell list" where
  "spec_pad l = l @ replicate (11 - length l) NaN"

text \<open>Sources that depart from the schema: a data line of twelve fields after one of
  eleven; two data lines of twelve fields each; a single data line of one field, a
  number.\<close>

definition long_line_source :: "real cell list list" where
  "long_line_source =
     [[Str ''# header''], [Str ''# header''],
      [Num 0, Str ''img1.jpg'', Num 0, Num 1, Num 2, Num 3, Num 4, Num 0.9, Num 0, Str ''cod'',
       Num 0.8],
      [Num 1, Str ''img1.jpg'', Num 0, Num 1, Num 2, Num 3, Num 4, Num 0.9, Num 0, Str ''cod'',
       Num 0.8, Str ''extra'']]"

definition wide_source :: "real cell list list" where
  "wide_source =
     [[Str ''# header''], [Str ''# header''],
      [Num 7, Num 0, Str ''img1.jpg'', Num 0, Num 1, Num 2, Num 3, Num 4, Num 0.9, Num 0,
       Str ''cod'', Num 0.8],
      [Num 8, Num 1, Str ''img1.jpg'', Num 0, Num 1, Num 2, Num 3, Num 4, Num 0.9, Num 0,
       Str ''cod'', Num 0.8]]"

definition no_name_source :: "real cell list list" where
  "no_name_source = [[Str ''# header''], [Str ''# header''], [Num 0]]"

section \<open>The parser on valid sources\<close>

lemma prefix_jpg_append:
  "a \<noteq> [] \<Longrightarrow> prefix ''.jpg'' (a @ ''.jpg'' @ b) = prefix ''.jpg'' a"
proof (cases a)
  case Nil then show "a \<noteq> [] \<Longrightarrow> ?thesis" by simp
next
  case (Cons x1 a1)
  show ?thesis
  proof (cases a1)
    case Nil with Cons show ?thesis by simp
  next
    case (Cons x2 a2)
    note c2 = this
    show ?thesis
    proof (cases a2)
      case Nil with c2 \<open>a = x1 # a1\<close> show ?thesis by simp
    next
      case (Cons x3 a3)
      note c3 = this
      show ?thesis
      proof (cases a3)
        case Nil with c2 c3 \<open>a = x1 # a1\<close> show ?thesis by simp
      next
        case (Cons x4 a4) with c2 c3 \<open>a = x1 # a1\<close> show ?thesis by simp
      qed
    qed
  qed
qed

lemma str_replace_miss:
  "old \<noteq> [] \<Longrightarrow> \<not> prefix old (x # r) \<Longrightarrow>
   str_replace old new (x # r) = x # str_replace old new r"
  by (subst str_replace.simps) simp

lemma str_replace_jpg_hit:
  "str_replace ''.jpg'' [] (''.jpg'' @ r) = str_replace ''.jpg'' [] r"
  by (subst str_replace.simps) simp

lemma str_replace_jpg_Nil: "str_replace ''.jpg'' [] [] = []"
  by (subst str_replace.simps) simp

lemma str_replace_jpg_append:
  "str_replace ''.jpg'' [] (a @ ''.jpg'' @ b) = str_replace ''.jpg'' [] a @ str_replace ''.jpg'' [] b"
proof (induction a rule: length_induct)
  case (1 a)
  show ?case
  proof (cases "a = []")
    case True
    then show ?thesis using str_replace_jpg_hit [of b] by (simp add: str_replace_jpg_Nil)
  next
    case False
    show ?thesis
    proof (cases "prefix ''.jpg'' a")
      case True
      then obtain r where a: "a = ''.jpg'' @ r" by (auto simp: prefix_def)
      have "str_replace ''.jpg'' [] (r @ ''.jpg'' @ b) = str_replace ''.jpg'' [] r @ str_replace ''.jpg'' [] b"
        using 1 a by simp
      then show ?thesis unfolding a
        using str_replace_jpg_hit [of "r @ ''.jpg'' @ b"] str_replace_jpg_hit [of r] by simp
    next
      case np: False
      from False obtain x r where a: "a = x # r" by (cases a) auto
      have ih: "str_replace ''.jpg'' [] (r @ ''.jpg'' @ b) = str_replace ''.jpg'' [] r @ str_replace ''.jpg'' [] b"
        using 1 a by simp
      have np': "\<not> prefix ''.jpg'' (a @ ''.jpg'' @ b)" using np prefix_jpg_append [OF False] by simp
      have l: "str_replace ''.jpg'' [] (x # (r @ ''.jpg'' @ b)) = x # str_replace ''.jpg'' [] (r @ ''.jpg'' @ b)"
        using np' unfolding a by (intro str_replace_miss) simp_all
      have r: "str_replace ''.jpg'' [] (x # r) = x # str_replace ''.jpg'' [] r"
        using np unfolding a by (intro str_replace_miss) simp_all
      show ?thesis unfolding a using l r ih by simp
    qed
  qed
qed

lemma valid_lineE:
  assumes "valid_line l"
  obtains a s c d e f g h i j k where "l = [a, Str s, c, d, e, f, g, h, i, j, k]"
proof -
  from assms have "length l = 11" and s: "is_Str (l ! 1)" by (simp_all add: valid_line_def)
  then obtain a b c d e f g h i j k where l: "l = [a,b,c,d,e,f,g,h,i,j,k]"
    by (auto simp: numeral_eq_Suc length_Suc_conv)
  with s obtain s' where "b = Str s'" by (cases b) (simp_all add: is_Str_def)
  with l that show thesis by blast
qed

lemma row_has_Imagename: "valid_line l \<Longrightarrow> map_of (zip names l) ''Imagename'' = Some (l ! 1)"
  by (erule valid_lineE) (simp add: names_def)

lemma row_replace:
  "valid_line l \<Longrightarrow> AList.map_entry ''Imagename'' (str_replace_cell ''.jpg'' []) (zip names l)
     = zip names (l[Suc 0 := Str (spec_image_id l)])"
  by (erule valid_lineE) (simp add: names_def str_replace_cell_def spec_image_id_def)

lemma row_bbox:
  "valid_line l \<Longrightarrow> bbox_parser (zip names (l[Suc 0 := Str (spec_image_id l)])) columns ''bbox''
     = Inr (Dict [(''bbox'', List (spec_bbox l))])"
  by (erule valid_lineE) (simp add: names_def bbox_parser_def columns_def spec_bbox_def)

lemma row_update:
  "valid_line l \<Longrightarrow> AList.update ''bbox'' v (zip names (l[Suc 0 := Str (spec_image_id l)]))
     = zip names (l[Suc 0 := Str (spec_image_id l)]) @ [(''bbox'', v)]"
  by (erule valid_lineE) (simp add: names_def)

lemma final_row_lookup:
  assumes "valid_line l"
  shows "key_of ''Imagename'' (final_row l) = Some (spec_image_id l)"
    and "map_of (final_row l) ''Imagename'' = Some (Str (spec_image_id l))"
    and "map_of (final_row l) ''bbox'' = Some (Dict [(''bbox'', List (spec_bbox l))])"
    and "map_of (final_row l) ''Species'' = Some (l ! 9)"
    and "map_of (final_row l) ''Confidence'' = Some (l ! 10)"
  using assms by - (erule valid_lineE, simp add: names_def final_row_def key_of_def)+

lemma map_filter_map_Some:
  "(\<And>x. x \<in> set xs \<Longrightarrow> f (g x) = Some (h x)) \<Longrightarrow> List.map_filter f (map g xs) = map h xs"
  by (induction xs) (simp_all add: List.map_filter_simps)

lemma filter_map_cong_set:
  "(\<And>x. x \<in> set xs \<Longrightarrow> P (g x) = Q x) \<Longrightarrow> filter P (map g xs) = map g (filter Q xs)"
  by (induction xs) simp_all

lemma str_replace_column_valid:
  assumes "list_all valid_line ls"
  shows "str_replace_column ''Imagename'' ''.jpg'' [] (map (zip names) ls)
         = Inr (map (\<lambda>l. zip names (l[Suc 0 := Str (spec_image_id l)])) ls)"
proof -
  have v: "\<And>l. l \<in> set ls \<Longrightarrow> valid_line l" using assms by (simp add: list_all_iff)
  have a: "\<not> list_ex (\<lambda>row. map_of row ''Imagename'' = None) (map (zip names) ls)"
    using v by (auto simp: list_ex_iff row_has_Imagename)
  have cc: "column_cells ''Imagename'' (map (zip names) ls) = map (\<lambda>l. l ! 1) ls"
    unfolding column_cells_def using v by (intro map_filter_map_Some) (simp add: row_has_Imagename)
  have b: "ls \<noteq> [] \<Longrightarrow> list_ex is_Str (column_cells ''Imagename'' (map (zip names) ls))"
  proof -
    assume "ls \<noteq> []"
    then obtain l where l: "l \<in> set ls" by (cases ls) auto
    with v have "is_Str (l ! 1)" by (simp add: valid_line_def)
    with l show ?thesis unfolding cc list_ex_iff by auto
  qed
  have c: "map (AList.map_entry ''Imagename'' (str_replace_cell ''.jpg'' [])) (map (zip names) ls)
           = map (\<lambda>l. zip names (l[Suc 0 := Str (spec_image_id l)])) ls"
    using v by (simp add: row_replace)
  show ?thesis unfolding str_replace_column_def using a b c by auto
qed

lemma apply_rows_valid:
  "list_all valid_line ls \<Longrightarrow>
   apply_rows (\<lambda>row. bbox_parser row columns ''bbox'')
     (map (\<lambda>l. zip names (l[Suc 0 := Str (spec_image_id l)])) ls)
   = Inr (map (\<lambda>l. Dict [(''bbox'', List (spec_bbox l))]) ls)"
  by (induction ls) (simp_all add: row_bbox)

lemma set_column_valid:
  "list_all valid_line ls \<Longrightarrow>
   set_column ''bbox'' (map (\<lambda>l. Dict [(''bbox'', List (spec_bbox l))]) ls)
     (map (\<lambda>l. zip names (l[Suc 0 := Str (spec_image_id l)])) ls)
   = map final_row ls"
  by (induction ls) (simp_all add: set_column_def row_update final_row_def)

lemma groupby_valid:
  assumes "list_all valid_line ls"
  shows "groupby_agg_to_dict ''Imagename'' [''bbox'', ''Species'', ''Confidence''] (map final_row ls)
         = Inr (spec_annotations ls)"
proof -
  have v: "\<And>l. l \<in> set ls \<Longrightarrow> valid_line l" using assms by (simp add: list_all_iff)
  have nokey: "\<not> list_ex (\<lambda>row. list_ex (\<lambda>c. map_of row c = None)
                  [''Imagename'', ''bbox'', ''Species'', ''Confidence'']) (map final_row ls)"
    using v by (auto simp: list_ex_iff final_row_lookup)
  have keys: "group_keys ''Imagename'' (map final_row ls) = sort (remdups (map spec_image_id ls))"
    unfolding group_keys_def using v
    by (simp add: map_filter_map_Some [where h = spec_image_id] final_row_lookup)
  have rows: "\<And>k. group_rows ''Imagename'' k (map final_row ls) = map final_row (spec_group k ls)"
    unfolding group_rows_def spec_group_def using v
    by (intro filter_map_cong_set) (simp add: final_row_lookup)
  have vg: "\<And>k l. l \<in> set (spec_group k ls) \<Longrightarrow> valid_line l"
    using v by (simp add: spec_group_def)
  have agg: "\<And>k. agg_list [''bbox'', ''Species'', ''Confidence''] (map final_row (spec_group k ls))
        = [(''bbox'', map (\<lambda>l. Dict [(''bbox'', List (spec_bbox l))]) (spec_group k ls)),
           (''Species'', map (\<lambda>l. l ! 9) (spec_group k ls)),
           (''Confidence'', map (\<lambda>l. l ! 10) (spec_group k ls))]"
    unfolding agg_list_def column_cells_def using vg
    by (simp add: map_filter_map_Some [where h = "\<lambda>l. Dict [(''bbox'', List (spec_bbox l))]"]
          map_filter_map_Some [where h = "\<lambda>l. l ! 9"] map_filter_map_Some [where h = "\<lambda>l. l ! 10"]
          final_row_lookup)
  show ?thesis
    unfolding groupby_agg_to_dict_def using nokey
    by (simp add: keys rows agg spec_annotations_def)
qed

lemma read_csv_valid:
  assumes "list_all valid_line (data_lines lines)"
  shows "read_csv names lines = Inr (map (zip names) (data_lines lines))"
proof -
  have n: "length names = 11" by (simp add: names_def)
  have len: "\<And>l. l \<in> set (data_lines lines) \<Longrightarrow> length l = 11"
    using assms by (simp add: list_all_iff valid_line_def)
  have w: "expected_fields names (data_lines lines) = 11"
    using len n by (cases "data_lines lines") (auto simp: expected_fields_def)
  have "\<not> list_ex (\<lambda>l. 11 < length l) (data_lines lines)"
    using len by (auto simp: list_ex_iff)
  moreover have "map (label_line names 11) (data_lines lines) = map (zip names) (data_lines lines)"
    using len n by (auto simp: label_line_def)
  ultimately show ?thesis by (simp add: read_csv_def Let_def w)
qed

lemma parse_annotation_valid:
  assumes "list_all valid_line (data_lines lines)"
  shows "parse_annotation lines = Inr (spec_annotations (data_lines lines))"
  unfolding parse_annotation_def
  by (simp add: read_csv_valid [OF assms] str_replace_column_valid [OF assms]
        apply_rows_valid [OF assms] set_column_valid [OF assms] groupby_valid [OF assms])

lemma keys_spec_annotations: "map fst (spec_annotations ls) = sort (remdups (map spec_image_id ls))"
  by (simp add: spec_annotations_def comp_def)

lemma map_of_spec_annotations:
  "map_of (spec_annotations ls) k =
     (if k \<in> set (map spec_image_id ls)
      then Some [(''bbox'', map (\<lambda>l. Dict [(''bbox'', List (spec_bbox l))]) (spec_group k ls)),
                 (''Species'', map (\<lambda>l. l ! 9) (spec_group k ls)),
                 (''Confidence'', map (\<lambda>l. l ! 10) (spec_group k ls))]
      else None)"
  unfolding spec_annotations_def map_of_map_restrict by (simp add: restrict_map_def)

lemma valid_source_parse:
  "valid_source lines \<Longrightarrow> parse_annotation lines = Inr (spec_annotations (data_lines lines))"
  by (simp add: valid_source_def parse_annotation_valid)

lemma apply_rows_bbox_error:
  "apply_rows (\<lambda>row. bbox_parser row cs n) df = Inl e \<Longrightarrow> e = KeyError"
  by (induction df) (auto simp: bbox_parser_def split: option.splits sum.splits)

lemma str_replace_column_error:
  "str_replace_column col old new df = Inl e \<Longrightarrow> e = KeyError \<or> e = AttributeError"
  by (auto simp: str_replace_column_def split: if_splits)

lemma groupby_error: "groupby_agg_to_dict by cols df = Inl e \<Longrightarrow> e = KeyError"
  by (auto simp: groupby_agg_to_dict_def split: if_splits)

lemma read_csv_error:
  "read_csv ns lines = Inl e \<longleftrightarrow>
     e = ParserError \<and> list_ex (\<lambda>l. expected_fields ns (data_lines lines) < length l) (data_lines lines)"
  by (auto simp: read_csv_def Let_def)

lemma parse_annotation_ParserError:
  "parse_annotation lines = Inl ParserError \<longleftrightarrow>
     list_ex (\<lambda>l. expected_fields names (data_lines lines) < length l) (data_lines lines)"
proof (cases "read_csv names lines")
  case (Inl e)
  then show ?thesis using read_csv_error [of names lines e] by (simp add: parse_annotation_def)
next
  case (Inr df)
  then have n: "\<not> list_ex (\<lambda>l. expected_fields names (data_lines lines) < length l) (data_lines lines)"
    by (auto simp: read_csv_def Let_def split: if_splits)
  have "parse_annotation lines \<noteq> Inl ParserError"
    using Inr
    by (auto simp: parse_annotation_def split: sum.splits
          dest: apply_rows_bbox_error str_replace_column_error groupby_error)
  with n show ?thesis by simp
qed

lemma short_line_result:
  "parse_annotation short_line_source =
     Inr [(''img1'', [(''bbox'', [Dict [(''bbox'', List [Num 1, Num 4, Num 3, Num 4, Num 3, Num 2, Num 1, Num 2])]]),
                      (''Species'', [Str ''cod'']), (''Confidence'', [NaN])])]"
  by (simp add: short_line_source_def parse_annotation_def read_csv_def data_lines_def
        expected_fields_def names_def label_line_def str_replace_column_def column_cells_def
        List.map_filter_def is_Str_def str_replace_cell_def str_replace.simps bbox_parser_def
        columns_def set_column_def groupby_agg_to_dict_def group_keys_def key_of_def
        group_rows_def agg_list_def)

lemma text_coordinate_result:
  "parse_annotation text_coordinate_source =
     Inr [(''img1'', [(''bbox'', [Dict [(''bbox'', List [Str ''abc'', Num 4, Num 3, Num 4, Num 3, Num 2, Str ''abc'', Num 2])]]),
                      (''Species'', [Str ''cod'']), (''Confidence'', [Num 0.8])])]"
proof -
  have "list_all valid_line (data_lines text_coordinate_source)"
    by (simp add: text_coordinate_source_def data_lines_def valid_line_def is_Str_def)
  then show ?thesis
    by (simp add: parse_annotation_valid)
       (simp add: text_coordinate_source_def data_lines_def spec_annotations_def spec_group_def
          spec_image_id_def spec_bbox_def str_replace.simps)
qed

lemma two_rows_result:
  "parse_annotation
     [h1, h2,
      [d1, Str ''img1.jpg'', f1, Num 0, Num 0, Num 10, Num 10, dc1, t1, Str ''tuna'', c1],
      [d2, Str ''img1.jpg'', f2, Num 5, Num 5, Num 15, Num 15, dc2, t2, Str ''shark'', c2]]
   = Inr [(''img1'',
           [(''bbox'', [Dict [(''bbox'', List [Num 0, Num 10, Num 10, Num 10, Num 10, Num 0, Num 0, Num 0])],
                       Dict [(''bbox'', List [Num 5, Num 15, Num 15, Num 15, Num 15, Num 5, Num 5, Num 5])]]),
            (''Species'', [Str ''tuna'', Str ''shark'']),
            (''Confidence'', [c1, c2])])]"
proof -
  let ?src = "[h1, h2,
      [d1, Str ''img1.jpg'', f1, Num 0, Num 0, Num 10, Num 10, dc1, t1, Str ''tuna'', c1],
      [d2, Str ''img1.jpg'', f2, Num 5, Num 5, Num 15, Num 15, dc2, t2, Str ''shark'', c2]]"
  have "list_all valid_line (data_lines ?src)"
    by (simp add: data_lines_def valid_line_def is_Str_def)
  then show ?thesis
    by (simp add: parse_annotation_valid)
       (simp add: data_lines_def spec_annotations_def spec_group_def
          spec_image_id_def spec_bbox_def str_replace.simps)
qed

section \<open>The parser on arbitrary sources\<close>

lemma length_names: "length names = 11"
  by (simp add: names_def)

lemma expected_fields_spec: "expected_fields names ls = spec_width ls"
  by (cases ls) (simp_all add: expected_fields_def spec_width_def length_names max.commute)

lemma spec_width_ge: "11 \<le> spec_width ls"
  by (cases ls) (simp_all add: spec_width_def)

lemma label_line_keys:
  assumes "length l \<le> w" and "11 \<le> w"
  shows "map fst (label_line names w l) = names"
proof -
  have "length (drop (w - 11) (l @ replicate (w - length l) NaN)) = 11"
    using assms by simp
  then show ?thesis
    unfolding label_line_def length_names by (simp add: length_names)
qed

lemma read_csv_rows:
  assumes "read_csv names lines = Inr df" and "row \<in> set df"
  shows "map fst row = names"
proof -
  let ?ls = "data_lines lines"
  let ?w = "spec_width ?ls"
  from assms(1) have n: "\<not> list_ex (\<lambda>l. ?w < length l) ?ls"
    and df: "df = map (label_line names ?w) ?ls"
    by (auto simp: read_csv_def Let_def expected_fields_spec split: if_splits)
  from assms(2) df obtain l where l: "l \<in> set ?ls" "row = label_line names ?w l" by auto
  from n l(1) have "length l \<le> ?w" by (auto simp: list_ex_iff not_less)
  then show ?thesis unfolding l(2) using spec_width_ge by (rule label_line_keys)
qed

lemma map_fst_map_entry: "map fst (AList.map_entry k f al) = map fst al"
  by (induction al) simp_all

lemma map_of_keys: "map fst row = ks \<Longrightarrow> k \<in> set ks \<Longrightarrow> map_of row k \<noteq> None"
  by (auto simp: map_of_eq_None_iff)

lemma those_map_of:
  "(\<And>c. c \<in> set cs \<Longrightarrow> map_of row c \<noteq> None) \<Longrightarrow> \<exists>vs. those (map (map_of row) cs) = Some vs"
  by (induction cs) (auto split: option.splits)

lemma bbox_parser_total:
  assumes "map fst row = names"
  shows "\<exists>v. bbox_parser row columns n = Inr v"
proof -
  have "\<And>c. c \<in> set columns \<Longrightarrow> map_of row c \<noteq> None"
    by (rule map_of_keys [OF assms]) (auto simp: columns_def names_def)
  from those_map_of [OF this] obtain vs where "those (map (map_of row) columns) = Some vs"
    by blast
  then show ?thesis by (simp add: bbox_parser_def)
qed

lemma apply_rows_total:
  "(\<And>row. row \<in> set df \<Longrightarrow> \<exists>v. f row = Inr v) \<Longrightarrow>
   \<exists>vs. apply_rows f df = Inr vs \<and> length vs = length df"
proof (induction df)
  case Nil
  show ?case by simp
next
  case (Cons row df)
  from Cons.prems obtain v where v: "f row = Inr v" by auto
  from Cons obtain vs where "apply_rows f df = Inr vs" "length vs = length df" by auto
  with v show ?case by simp
qed

lemma set_column_rows:
  assumes "row' \<in> set (set_column c vs df)"
  obtains row v where "row \<in> set df" and "row' = AList.update c v row"
  using assms unfolding set_column_def by (auto dest: set_zip_leftD)

lemma groupby_total:
  assumes "\<And>row c. row \<in> set df \<Longrightarrow> c \<in> set (by # cols) \<Longrightarrow> map_of row c \<noteq> None"
  shows "\<exists>out. groupby_agg_to_dict by cols df = Inr out"
proof -
  have "\<not> list_ex (\<lambda>row. list_ex (\<lambda>c. map_of row c = None) (by # cols)) df"
    using assms unfolding list_ex_iff by blast
  then show ?thesis by (simp add: groupby_agg_to_dict_def)
qed

lemma parse_annotation_after_read:
  assumes r: "read_csv names lines = Inr df"
  shows "(df \<noteq> [] \<and> \<not> list_ex is_Str (column_cells ''Imagename'' df)
            \<longrightarrow> parse_annotation lines = Inl AttributeError)
         \<and> (df = [] \<or> list_ex is_Str (column_cells ''Imagename'' df)
            \<longrightarrow> (\<exists>out. parse_annotation lines = Inr out))"
proof -
  have keys: "\<And>row. row \<in> set df \<Longrightarrow> map fst row = names"
    using r by (rule read_csv_rows)
  have nk: "\<not> list_ex (\<lambda>row. map_of row ''Imagename'' = None) df"
  proof -
    have "\<And>row. row \<in> set df \<Longrightarrow> map_of row ''Imagename'' \<noteq> None"
      by (rule map_of_keys [OF keys]) (simp_all add: names_def)
    then show ?thesis unfolding list_ex_iff by blast
  qed
  let ?df1 = "map (AList.map_entry ''Imagename'' (str_replace_cell ''.jpg'' [])) df"
  have a: "df \<noteq> [] \<and> \<not> list_ex is_Str (column_cells ''Imagename'' df)
            \<longrightarrow> parse_annotation lines = Inl AttributeError"
    using r nk by (simp add: parse_annotation_def str_replace_column_def)
  have b: "\<exists>out. parse_annotation lines = Inr out"
    if ok: "df = [] \<or> list_ex is_Str (column_cells ''Imagename'' df)"
  proof -
    have s: "str_replace_column ''Imagename'' ''.jpg'' [] df = Inr ?df1"
      using nk ok by (auto simp: str_replace_column_def)
    have keys1: "\<And>row. row \<in> set ?df1 \<Longrightarrow> map fst row = names"
      using keys by (auto simp: map_fst_map_entry)
    have "\<And>row. row \<in> set ?df1 \<Longrightarrow> \<exists>v. bbox_parser row columns ''bbox'' = Inr v"
      using keys1 by (rule bbox_parser_total)
    from apply_rows_total [of ?df1 "\<lambda>row. bbox_parser row columns ''bbox''", OF this]
    obtain bs where bs: "apply_rows (\<lambda>row. bbox_parser row columns ''bbox'') ?df1 = Inr bs"
      by blast
    have look: "map_of row' c \<noteq> None"
      if "row' \<in> set (set_column ''bbox'' bs ?df1)"
        and "c \<in> set [''Imagename'', ''bbox'', ''Species'', ''Confidence'']" for row' c
    proof -
      from that(1) obtain row v where row: "row \<in> set ?df1" "row' = AList.update ''bbox'' v row"
        by (rule set_column_rows)
      have "c \<noteq> ''bbox'' \<Longrightarrow> map_of row c \<noteq> None"
        using that(2) by (intro map_of_keys [OF keys1 [OF row(1)]]) (auto simp: names_def)
      then show ?thesis unfolding row(2) by (auto simp: update_conv')
    qed
    from groupby_total [of "set_column ''bbox'' bs ?df1" "''Imagename''"
        "[''bbox'', ''Species'', ''Confidence'']"] look
    obtain out where "groupby_agg_to_dict ''Imagename'' [''bbox'', ''Species'', ''Confidence'']
                        (set_column ''bbox'' bs ?df1) = Inr out"
      by auto
    then show ?thesis using r s bs by (simp add: parse_annotation_def)
  qed
  from a b show ?thesis by blast
qed

lemma parse_annotation_errors:
  "parse_annotation lines = Inl e \<Longrightarrow> e = ParserError \<or> e = AttributeError"
proof (cases "read_csv names lines")
  case (Inl e')
  then show "parse_annotation lines = Inl e \<Longrightarrow> ?thesis"
    using read_csv_error [of names lines e'] by (simp add: parse_annotation_def)
next
  case (Inr df)
  assume e: "parse_annotation lines = Inl e"
  from parse_annotation_after_read [OF Inr] e show ?thesis
    by (cases "df \<noteq> [] \<and> \<not> list_ex is_Str (column_cells ''Imagename'' df)") auto
qed

lemma spec_pad_length: "length l \<le> 11 \<Longrightarrow> length (spec_pad l) = 11"
  by (simp add: spec_pad_def)

lemma read_csv_padded:
  assumes "\<And>l. l \<in> set (data_lines lines) \<Longrightarrow> length l \<le> 11"
  shows "read_csv names lines = Inr (map (zip names) (map spec_pad (data_lines lines)))"
proof -
  let ?ls = "data_lines lines"
  have w: "spec_width ?ls = 11"
    using assms by (cases ?ls) (auto simp: spec_width_def)
  have "\<not> list_ex (\<lambda>l. 11 < length l) ?ls"
    using assms by (auto simp: list_ex_iff not_less)
  moreover have "map (label_line names 11) ?ls = map (zip names) (map spec_pad ?ls)"
    by (simp add: label_line_def spec_pad_def length_names)
  ultimately show ?thesis by (simp add: read_csv_def Let_def expected_fields_spec w)
qed

lemma row_Imagename:
  assumes "length l = 11"
  shows "map_of (zip names l) ''Imagename'' = Some (l ! 1)"
proof -
  from assms obtain a b c d e f g h i j k where "l = [a,b,c,d,e,f,g,h,i,j,k]"
    by (auto simp: numeral_eq_Suc length_Suc_conv)
  then show ?thesis by (simp add: names_def)
qed

lemma column_cells_padded:
  assumes "\<And>l. l \<in> set ls \<Longrightarrow> length l \<le> 11"
  shows "column_cells ''Imagename'' (map (zip names) (map spec_pad ls))
           = map (\<lambda>l. spec_pad l ! 1) ls"
proof -
  have "List.map_filter (\<lambda>row. map_of row ''Imagename'') (map (\<lambda>l. zip names (spec_pad l)) ls)
          = map (\<lambda>l. spec_pad l ! 1) ls"
    using assms by (intro map_filter_map_Some) (simp add: row_Imagename spec_pad_length)
  then show ?thesis by (simp add: column_cells_def comp_def)
qed

lemma parse_annotation_padded:
  assumes len: "\<And>l. l \<in> set (data_lines lines) \<Longrightarrow> length l \<le> 11"
    and str: "\<And>l. l \<in> set (data_lines lines) \<Longrightarrow> is_Str (spec_pad l ! 1)"
  shows "parse_annotation lines = Inr (spec_annotations (map spec_pad (data_lines lines)))"
proof -
  have v: "list_all valid_line (map spec_pad (data_lines lines))"
    using len str by (auto simp: list_all_iff valid_line_def spec_pad_length)
  show ?thesis
    by (simp only: parse_annotation_def read_csv_padded [OF len] sum.case
          str_replace_column_valid [OF v] apply_rows_valid [OF v] set_column_valid [OF v]
          groupby_valid [OF v])
qed

lemma parse_annotation_AttributeError_short:
  assumes len: "\<And>l. l \<in> set (data_lines lines) \<Longrightarrow> length l \<le> 11"
  shows "parse_annotation lines = Inl AttributeError \<longleftrightarrow>
           data_lines lines \<noteq> [] \<and> (\<forall>l \<in> set (data_lines lines). \<not> is_Str (spec_pad l ! 1))"
proof -
  let ?df = "map (zip names) (map spec_pad (data_lines lines))"
  have r: "read_csv names lines = Inr ?df" using len by (rule read_csv_padded)
  have "column_cells ''Imagename'' ?df = map (\<lambda>l. spec_pad l ! 1) (data_lines lines)"
    using len by (rule column_cells_padded)
  then have cc: "list_ex is_Str (column_cells ''Imagename'' ?df)
              \<longleftrightarrow> (\<exists>l \<in> set (data_lines lines). is_Str (spec_pad l ! 1))"
    by (simp only: list_ex_iff set_map) blast
  have e: "?df = [] \<longleftrightarrow> data_lines lines = []" by simp
  from parse_annotation_after_read [OF r] show ?thesis
    unfolding cc e by (cases "data_lines lines = []") auto
qed

lemma parse_annotation_some_name:
  assumes len: "\<And>l. l \<in> set (data_lines lines) \<Longrightarrow> length l \<le> 11"
    and ex: "\<exists>l \<in> set (data_lines lines). is_Str (spec_pad l ! 1)"
  shows "\<exists>out. parse_annotation lines = Inr out"
proof -
  let ?df = "map (zip names) (map spec_pad (data_lines lines))"
  have r: "read_csv names lines = Inr ?df" using len by (rule read_csv_padded)
  have "column_cells ''Imagename'' ?df = map (\<lambda>l. spec_pad l ! 1) (data_lines lines)"
    using len by (rule column_cells_padded)
  then have "list_ex is_Str (column_cells ''Imagename'' ?df)"
    using ex by (simp only: list_ex_iff set_map) blast
  with parse_annotation_after_read [OF r] show ?thesis by blast
qed

lemma parse_annotation_ParserError_spec:
  "parse_annotation lines = Inl ParserError \<longleftrightarrow>
     (\<exists>l \<in> set (data_lines lines). spec_width (data_lines lines) < length l)"
  unfolding parse_annotation_ParserError expected_fields_spec list_ex_iff ..

section \<open>The layer functions step by step\<close>

lemma send_layer_as_geojson_result:
  "layer_type l = VectorLayer \<Longrightarrow>
   fst (send_layer_as_geojson env (Some l) url st) = api_result (post env url (geojson_sent env l))"
  by (simp add: send_layer_as_geojson_def Let_def split_beta geojson_sent_def create_file_def
        write_file_def print_def split: option.splits)

lemma send_layer_using_gdal_result:
  "layer_type l = VectorLayer \<Longrightarrow> gdal_reaches_upload env l \<Longrightarrow>
   fst (send_layer_as_geojson_using_gdal env (Some l) url st)
     = api_result (post env url (gdal_geojson_sent env))"
  by (simp add: send_layer_as_geojson_using_gdal_def Let_def split_beta gdal_reaches_upload_def
        gdal_geojson_sent_def create_file_def write_file_def split: option.splits)

lemma api_result_cases:
  "(status_code r = 200 \<and> json_body r = Some j \<longrightarrow>
      api_result r = Inr (PDict [(''success'', PStr ''Layer successfully sent to the API''),
                                 (''response'', PJson j)]))
   \<and> (status_code r = 200 \<and> json_body r = None \<longrightarrow> api_result r = Inl JSONDecodeError)
   \<and> (status_code r \<noteq> 200 \<longrightarrow>
      api_result r = Inr (PDict [(''error'',
                          PStr (''Failed to send GeoJSON to API. Status code: ''
                                @ str_int (status_code r))),
                        (''response'', PStr (body_text r))]))"
  by (simp add: api_result_def)

lemma lookup_api_endpoint:
  "lookup_name ''api_endpoint'' (convert_locals input_path output_path input_ds geojson_data)
     = Inl NameError"
  by (simp add: lookup_name_def convert_locals_def module_globals_def)

lemma convert_reaches_upload:
  "ogr_Open env input_path = Some input_ds \<Longrightarrow> GetDriverByName env ''GeoJSON'' \<Longrightarrow>
   CreateDataSource env (case output_path0 of None \<Rightarrow> uuid4_hex env @ ''.geojson'' | Some p \<Rightarrow> p) \<Longrightarrow>
   fst (convert_to_geojson_using_gdal env input_path output_path0 st) = Inl NameError"
  by (simp add: convert_to_geojson_using_gdal_def Let_def write_file_def lookup_api_endpoint)

lemma convert_outcomes:
  "fst (convert_to_geojson_using_gdal env input_path output_path0 st) = Inl NameError
   \<or> (\<exists>s. fst (convert_to_geojson_using_gdal env input_path output_path0 st) = Inr (PStr s))"
  by (simp add: convert_to_geojson_using_gdal_def Let_def write_file_def lookup_api_endpoint
        split: option.splits)

lemma convert_ignores_post:
  "convert_to_geojson_using_gdal (env\<lparr>post := p\<rparr>) input_path output_path0 st
     = convert_to_geojson_using_gdal env input_path output_path0 st"
  by (simp add: convert_to_geojson_using_gdal_def Let_def write_file_def lookup_api_endpoint
        split: option.splits)

lemma export_at_writer_error: "fst (export_layer_to_geojson (sample_env 2 ok_response) (Some sample_layer) ''/out'' empty_state)
     = Inr (PDict [(''error'', PStr ''Failed to export layer. Error code: 2'')])"
  by (simp add: export_layer_to_geojson_def sample_env_def sample_layer_def NoError_def
        write_file_def str_nat.simps Let_def)

lemma gdal_at_writer_error: "fst (send_layer_as_geojson_using_gdal (sample_env 2 ok_response) (Some sample_layer) (PStr ''http://api'') empty_state)
     = Inr (PDict [(''error'', PStr ''Failed to export layer to GPKG. Error code: 2'')])"
  by (simp add: send_layer_as_geojson_using_gdal_def sample_env_def sample_layer_def NoError_def
        write_file_def create_file_def str_nat.simps Let_def)

lemma send_at_writer_error: "fst (send_layer_as_geojson (sample_env 2 ok_response) (Some sample_layer) (PStr ''http://api'') empty_state)
     = Inr (PDict [(''success'', PStr ''Layer successfully sent to the API''), (''response'', PJson ())])"
  by (simp add: send_layer_as_geojson_def sample_env_def sample_layer_def NoError_def
        write_file_def create_file_def empty_state_def api_result_def ok_response_def Let_def)

lemma send_at_plain_body: "fst (send_layer_as_geojson (sample_env 0 plain_response) (Some sample_layer) (PStr ''http://api'') empty_state)
     = Inl JSONDecodeError"
  by (simp add: send_layer_as_geojson_def sample_env_def sample_layer_def NoError_def
        write_file_def create_file_def empty_state_def api_result_def plain_response_def print_def Let_def)

section \<open>Claims about the annotation parser\<close>

text \<open>
  C3. The image identifier is normalised by deleting the literal \<open>.jpg\<close> wherever it
  occurs, not only at the end: on a valid source the keys of the result are exactly the
  image names of the data lines after \<open>str_replace\<close>; an occurrence between any two
  parts \<open>a\<close> and \<open>b\<close> of a name is deleted and the replacement goes on in both parts;
  \<open>a.jpg.jpg\<close> becomes \<open>a\<close> and \<open>image.jpgfile\<close> becomes \<open>imagefile\<close>.
\<close>

theorem jpg_removed_everywhere:
  "valid_source lines \<Longrightarrow>
     (\<exists>out. parse_annotation lines = Inr out \<and>
        set (map fst out) =
          {str_replace ''.jpg'' [] s | s l. l \<in> set (data_lines lines) \<and> l ! 1 = Str s})
     \<and> (\<forall>a b. str_replace ''.jpg'' [] (a @ ''.jpg'' @ b)
                 = str_replace ''.jpg'' [] a @ str_replace ''.jpg'' [] b)
     \<and> str_replace ''.jpg'' [] ''a.jpg.jpg'' = ''a''
     \<and> str_replace ''.jpg'' [] ''image.jpgfile'' = ''imagefile''"
proof -
  assume v: "valid_source lines"
  then have va: "list_all valid_line (data_lines lines)" by (simp add: valid_source_def)
  have id: "\<And>l. l \<in> set (data_lines lines) \<Longrightarrow> \<exists>s. l ! 1 = Str s \<and> spec_image_id l = str_replace ''.jpg'' [] s"
  proof -
    fix l assume "l \<in> set (data_lines lines)"
    with va have "valid_line l" by (simp add: list_all_iff)
    then show "\<exists>s. l ! 1 = Str s \<and> spec_image_id l = str_replace ''.jpg'' [] s"
      by (elim valid_lineE) (simp add: spec_image_id_def)
  qed
  have "set (map fst (spec_annotations (data_lines lines)))
        = {str_replace ''.jpg'' [] s | s l. l \<in> set (data_lines lines) \<and> l ! 1 = Str s}"
    unfolding keys_spec_annotations
  proof (intro set_eqI iffI)
    fix k assume "k \<in> set (sort (remdups (map spec_image_id (data_lines lines))))"
    then obtain l where l: "l \<in> set (data_lines lines)" "k = spec_image_id l" by auto
    with id [OF l(1)] show "k \<in> {str_replace ''.jpg'' [] s | s l. l \<in> set (data_lines lines) \<and> l ! 1 = Str s}"
      by auto
  next
    fix k assume "k \<in> {str_replace ''.jpg'' [] s | s l. l \<in> set (data_lines lines) \<and> l ! 1 = Str s}"
    then obtain s l where l: "l \<in> set (data_lines lines)" "l ! 1 = Str s" "k = str_replace ''.jpg'' [] s"
      by auto
    with id [OF l(1)] have "k = spec_image_id l" by auto
    with l(1) show "k \<in> set (sort (remdups (map spec_image_id (data_lines lines))))" by auto
  qed
  with parse_annotation_valid [OF va] have 1: "\<exists>out. parse_annotation lines = Inr out \<and>
        set (map fst out) =
          {str_replace ''.jpg'' [] s | s l. l \<in> set (data_lines lines) \<and> l ! 1 = Str s}"
    by simp
  have 3: "str_replace ''.jpg'' [] ''a.jpg.jpg'' = ''a''" by (simp add: str_replace.simps)
  have 4: "str_replace ''.jpg'' [] ''image.jpgfile'' = ''imagefile''" by (simp add: str_replace.simps)
  from 1 3 4 str_replace_jpg_append show ?thesis by blast
qed

theorem jpg_removed_everywhere_witness:
  "valid_source jpg_example \<and>
   (\<exists>out. parse_annotation jpg_example = Inr out \<and> set (map fst out) = {''a'', ''imagefile''})"
proof -
  have v: "valid_source jpg_example"
    by (simp add: valid_source_def jpg_example_def data_lines_def valid_line_def is_Str_def)
  note t = jpg_removed_everywhere [OF v]
  have e1: "str_replace ''.jpg'' [] ''a.jpg.jpg'' = ''a''"
    and e2: "str_replace ''.jpg'' [] ''image.jpgfile'' = ''imagefile''"
    using t by blast+
  let ?S = "{str_replace ''.jpg'' [] s | s l. l \<in> set (data_lines jpg_example) \<and> l ! 1 = Str s}"
  have sub: "?S \<subseteq> {''a'', ''imagefile''}"
    unfolding jpg_example_def data_lines_def using e1 e2 by auto
  have "\<exists>s l. ''a'' = str_replace ''.jpg'' [] s \<and> l \<in> set (data_lines jpg_example) \<and> l ! 1 = Str s"
    by (rule exI [of _ "''a.jpg.jpg''"], rule exI [of _ "data_lines jpg_example ! 1"])
       (simp add: e1 jpg_example_def data_lines_def)
  moreover
  have "\<exists>s l. ''imagefile'' = str_replace ''.jpg'' [] s \<and> l \<in> set (data_lines jpg_example) \<and> l ! 1 = Str s"
    by (rule exI [of _ "''image.jpgfile''"], rule exI [of _ "data_lines jpg_example ! 0"])
       (simp add: e2 jpg_example_def data_lines_def)
  ultimately have "?S = {''a'', ''imagefile''}" using sub by blast
  with t v show ?thesis by simp
qed

text \<open>
  C1. Every data line of a valid source contributes a bounding box whose coordinates are
  the line's fields in the order \<open>TL_x, BR_y, BR_x, BR_y, BR_x, TL_y, TL_x, TL_y\<close> (fields
  3, 6, 5, 6, 5, 4, 3, 4 of the line), whatever values the fields hold, and every bounding
  box of the result is that of a data line. The coordinate list is the value of the one
  key \<open>bbox\<close> of the dictionary that \<open>bbox_parser\<close> returns.
\<close>

theorem bbox_coordinate_order:
  "valid_source lines \<Longrightarrow>
   \<exists>out. parse_annotation lines = Inr out \<and>
     (\<forall>l \<in> set (data_lines lines). \<exists>g bs.
         map_of out (spec_image_id l) = Some g \<and> map_of g ''bbox'' = Some bs \<and>
         Dict [(''bbox'', List [l ! 3, l ! 6, l ! 5, l ! 6, l ! 5, l ! 4, l ! 3, l ! 4])] \<in> set bs) \<and>
     (\<forall>k g bs b. map_of out k = Some g \<and> map_of g ''bbox'' = Some bs \<and> b \<in> set bs \<longrightarrow>
         (\<exists>l \<in> set (data_lines lines).
            b = Dict [(''bbox'', List [l ! 3, l ! 6, l ! 5, l ! 6, l ! 5, l ! 4, l ! 3, l ! 4])]))"
proof -
  assume v: "valid_source lines"
  let ?ls = "data_lines lines"
  let ?out = "spec_annotations ?ls"
  have p: "parse_annotation lines = Inr ?out" using v by (rule valid_source_parse)
  have a: "\<forall>l \<in> set ?ls. \<exists>g bs.
         map_of ?out (spec_image_id l) = Some g \<and> map_of g ''bbox'' = Some bs \<and>
         Dict [(''bbox'', List [l ! 3, l ! 6, l ! 5, l ! 6, l ! 5, l ! 4, l ! 3, l ! 4])] \<in> set bs"
  proof
    fix l assume l: "l \<in> set ?ls"
    then have "l \<in> set (spec_group (spec_image_id l) ?ls)" by (simp add: spec_group_def)
    then have "Dict [(''bbox'', List (spec_bbox l))]
      \<in> (\<lambda>l. Dict [(''bbox'', List (spec_bbox l))]) ` set (spec_group (spec_image_id l) ?ls)"
      by (rule imageI)
    with l show "\<exists>g bs.
         map_of ?out (spec_image_id l) = Some g \<and> map_of g ''bbox'' = Some bs \<and>
         Dict [(''bbox'', List [l ! 3, l ! 6, l ! 5, l ! 6, l ! 5, l ! 4, l ! 3, l ! 4])] \<in> set bs"
      by (simp add: map_of_spec_annotations spec_bbox_def)
  qed
  have b: "\<forall>k g bs b. map_of ?out k = Some g \<and> map_of g ''bbox'' = Some bs \<and> b \<in> set bs \<longrightarrow>
         (\<exists>l \<in> set ?ls.
            b = Dict [(''bbox'', List [l ! 3, l ! 6, l ! 5, l ! 6, l ! 5, l ! 4, l ! 3, l ! 4])])"
    by (auto simp: map_of_spec_annotations spec_bbox_def spec_group_def split: if_splits)
  from p a b show ?thesis by blast
qed

theorem bbox_coordinate_order_witness:
  "valid_source three_line_source \<and>
   (\<exists>out. parse_annotation three_line_source = Inr out \<and>
     (\<forall>l \<in> set (data_lines three_line_source). \<exists>g bs.
         map_of out (spec_image_id l) = Some g \<and> map_of g ''bbox'' = Some bs \<and>
         Dict [(''bbox'', List [l ! 3, l ! 6, l ! 5, l ! 6, l ! 5, l ! 4, l ! 3, l ! 4])] \<in> set bs) \<and>
     (\<forall>k g bs b. map_of out k = Some g \<and> map_of g ''bbox'' = Some bs \<and> b \<in> set bs \<longrightarrow>
         (\<exists>l \<in> set (data_lines three_line_source).
            b = Dict [(''bbox'', List [l ! 3, l ! 6, l ! 5, l ! 6, l ! 5, l ! 4, l ! 3, l ! 4])])))"
proof -
  have v: "valid_source three_line_source"
    by (simp add: valid_source_def three_line_source_def data_lines_def valid_line_def is_Str_def)
  from v bbox_coordinate_order [OF v] show ?thesis by (rule conjI)
qed

text \<open>
  C2 as the specification states it fails: the entries of the \<open>bbox\<close> list are not bare
  lists of eight numbers. On the source of the example, with confidences 0.9 and 0.8, the
  result is not the mapping that the specification shows.
\<close>

theorem example_bare_lists_counterexample:
  "parse_annotation example_source \<noteq>
     Inr [(''img1'',
           [(''bbox'', [List [Num 0, Num 10, Num 10, Num 10, Num 10, Num 0, Num 0, Num 0],
                       List [Num 5, Num 15, Num 15, Num 15, Num 15, Num 5, Num 5, Num 5]]),
            (''Species'', [Str ''tuna'', Str ''shark'']),
            (''Confidence'', [Num 0.9, Num 0.8])])]"
  unfolding example_source_def by (simp add: two_rows_result)

text \<open>
  C2, amended. After any two skipped lines, two data lines with image name \<open>img1.jpg\<close>,
  coordinates \<open>(0, 0, 10, 10)\<close> and \<open>(5, 5, 15, 15)\<close>, and species \<open>tuna\<close> and \<open>shark\<close>
  give the single key \<open>img1\<close>; each entry of its \<open>bbox\<close> list is a dictionary with the one
  key \<open>bbox\<close> whose value is the list of eight numbers; species and confidences are listed
  in line order.
\<close>

theorem example_two_rows:
  "parse_annotation
     [h1, h2,
      [d1, Str ''img1.jpg'', f1, Num 0, Num 0, Num 10, Num 10, dc1, t1, Str ''tuna'', c1],
      [d2, Str ''img1.jpg'', f2, Num 5, Num 5, Num 15, Num 15, dc2, t2, Str ''shark'', c2 :: real cell]]
   = Inr [(''img1'',
           [(''bbox'', [Dict [(''bbox'', List [Num 0, Num 10, Num 10, Num 10, Num 10, Num 0, Num 0, Num 0])],
                       Dict [(''bbox'', List [Num 5, Num 15, Num 15, Num 15, Num 15, Num 5, Num 5, Num 5])]]),
            (''Species'', [Str ''tuna'', Str ''shark'']),
            (''Confidence'', [c1, c2])])]"
  by (rule two_rows_result)

text \<open>
  C4. On a valid source the keys of the result are distinct and every data line's image
  identifier is one of them; every group belongs to the identifier of some data line and
  holds exactly the three lists \<open>bbox\<close>, \<open>Species\<close> and \<open>Confidence\<close>, each as long as the
  number of data lines with that identifier, their entries being those of these lines in
  the order of the source.
\<close>

theorem groups_partition_rows:
  "valid_source lines \<Longrightarrow>
   \<exists>out. parse_annotation lines = Inr out \<and> distinct (map fst out) \<and>
     (\<forall>l \<in> set (data_lines lines). spec_image_id l \<in> set (map fst out)) \<and>
     (\<forall>(k, g) \<in> set out.
        k \<in> spec_image_id ` set (data_lines lines) \<and>
        (\<exists>bs sp cf. g = [(''bbox'', bs), (''Species'', sp), (''Confidence'', cf)] \<and>
           length bs = length (filter (\<lambda>l. spec_image_id l = k) (data_lines lines)) \<and>
           length sp = length bs \<and> length cf = length bs \<and>
           bs = map (\<lambda>l. Dict [(''bbox'', List (spec_bbox l))])
                  (filter (\<lambda>l. spec_image_id l = k) (data_lines lines)) \<and>
           sp = map (\<lambda>l. l ! 9) (filter (\<lambda>l. spec_image_id l = k) (data_lines lines)) \<and>
           cf = map (\<lambda>l. l ! 10) (filter (\<lambda>l. spec_image_id l = k) (data_lines lines))))"
proof -
  assume v: "valid_source lines"
  let ?ls = "data_lines lines"
  let ?out = "spec_annotations ?ls"
  have p: "parse_annotation lines = Inr ?out" using v by (rule valid_source_parse)
  have d: "distinct (map fst ?out)" by (simp add: keys_spec_annotations)
  have m: "\<forall>l \<in> set ?ls. spec_image_id l \<in> set (map fst ?out)"
    by (simp add: keys_spec_annotations)
  have g: "\<forall>(k, g) \<in> set ?out.
        k \<in> spec_image_id ` set ?ls \<and>
        (\<exists>bs sp cf. g = [(''bbox'', bs), (''Species'', sp), (''Confidence'', cf)] \<and>
           length bs = length (filter (\<lambda>l. spec_image_id l = k) ?ls) \<and>
           length sp = length bs \<and> length cf = length bs \<and>
           bs = map (\<lambda>l. Dict [(''bbox'', List (spec_bbox l))])
                  (filter (\<lambda>l. spec_image_id l = k) ?ls) \<and>
           sp = map (\<lambda>l. l ! 9) (filter (\<lambda>l. spec_image_id l = k) ?ls) \<and>
           cf = map (\<lambda>l. l ! 10) (filter (\<lambda>l. spec_image_id l = k) ?ls))"
    by (auto simp: spec_annotations_def spec_group_def)
  from p d m g show ?thesis by blast
qed

theorem groups_partition_rows_witness:
  "valid_source three_line_source \<and>
   parse_annotation three_line_source =
     Inr [(''a'', [(''bbox'', [Dict [(''bbox'', List [Num 5, Num 8, Num 7, Num 8, Num 7, Num 6, Num 5, Num 6])]]),
                   (''Species'', [Str ''shark'']), (''Confidence'', [Num 0.8])]),
          (''b'', [(''bbox'', [Dict [(''bbox'', List [Num 1, Num 4, Num 3, Num 4, Num 3, Num 2, Num 1, Num 2])],
                              Dict [(''bbox'', List [Num 9, Num 12, Num 11, Num 12, Num 11, Num 10, Num 9, Num 10])]]),
                   (''Species'', [Str ''tuna'', Str ''cod'']), (''Confidence'', [Num 0.9, Num 0.7])])]"
proof -
  have v: "valid_source three_line_source"
    by (simp add: valid_source_def three_line_source_def data_lines_def valid_line_def is_Str_def)
  from groups_partition_rows [OF v] obtain out where
    p: "parse_annotation three_line_source = Inr out" by blast
  have "parse_annotation three_line_source = Inr (spec_annotations (data_lines three_line_source))"
    using v by (rule valid_source_parse)
  then show ?thesis using v p
    by (simp add: three_line_source_def data_lines_def spec_annotations_def spec_group_def
          spec_image_id_def spec_bbox_def str_replace.simps)
qed

text \<open>
  C8 as the specification states it fails. A data line with ten fields instead of eleven
  raises nothing: the missing confidence is filled in as a missing value. A coordinate
  field that holds a text raises nothing either: the text is copied into the bounding box.
\<close>

theorem schema_errors_counterexample:
  "parse_annotation short_line_source =
     Inr [(''img1'', [(''bbox'', [Dict [(''bbox'', List [Num 1, Num 4, Num 3, Num 4, Num 3, Num 2, Num 1, Num 2])]]),
                      (''Species'', [Str ''cod'']), (''Confidence'', [NaN])])]
   \<and> parse_annotation text_coordinate_source =
     Inr [(''img1'', [(''bbox'', [Dict [(''bbox'', List [Str ''abc'', Num 4, Num 3, Num 4, Num 3, Num 2, Str ''abc'', Num 2])]]),
                      (''Species'', [Str ''cod'']), (''Confidence'', [Num 0.8])])]"
  using short_line_result text_coordinate_result by (rule conjI)

text \<open>
  C8, amended. The parser's error is raised exactly when some data line has more fields
  than the larger of eleven and the number of fields of the first data line, and the only
  other error is the attribute error of the text accessor. When every data line has at
  most eleven fields, the lines are filled up with missing values; the attribute error is
  then raised exactly when there are data lines and none of them has a text as image name;
  a source with some text image name is parsed; and when every data line has a text as
  image name, the result is exactly the grouping of the filled lines, whatever the other
  fields hold: no check is made on the coordinates, so a coordinate that is not a number
  raises nothing and is copied into the bounding box. A call that raises returns no
  mapping.
\<close>

theorem parser_error_cases:
  "(parse_annotation lines = Inl ParserError \<longleftrightarrow>
      (\<exists>l \<in> set (data_lines lines). spec_width (data_lines lines) < length l))
   \<and> (\<forall>e. parse_annotation lines = Inl e \<longrightarrow> e = ParserError \<or> e = AttributeError)
   \<and> ((\<forall>l \<in> set (data_lines lines). length l \<le> 11) \<longrightarrow>
        (parse_annotation lines = Inl AttributeError \<longleftrightarrow>
           data_lines lines \<noteq> [] \<and> (\<forall>l \<in> set (data_lines lines). \<not> is_Str (spec_pad l ! 1)))
        \<and> ((\<exists>l \<in> set (data_lines lines). is_Str (spec_pad l ! 1)) \<longrightarrow>
             (\<exists>out. parse_annotation lines = Inr out))
        \<and> (data_lines lines \<noteq> [] \<and> (\<forall>l \<in> set (data_lines lines). is_Str (spec_pad l ! 1)) \<longrightarrow>
             parse_annotation lines = Inr (spec_annotations (map spec_pad (data_lines lines)))))
   \<and> (\<forall>e out. parse_annotation lines = Inl e \<longrightarrow> parse_annotation lines \<noteq> Inr out)"
proof (intro conjI impI allI)
  show "parse_annotation lines = Inl ParserError \<longleftrightarrow>
      (\<exists>l \<in> set (data_lines lines). spec_width (data_lines lines) < length l)"
    by (rule parse_annotation_ParserError_spec)
next
  fix e assume "parse_annotation lines = Inl e"
  then show "e = ParserError \<or> e = AttributeError" by (rule parse_annotation_errors)
next
  assume "\<forall>l \<in> set (data_lines lines). length l \<le> 11"
  then show "parse_annotation lines = Inl AttributeError \<longleftrightarrow>
           data_lines lines \<noteq> [] \<and> (\<forall>l \<in> set (data_lines lines). \<not> is_Str (spec_pad l ! 1))"
    by (intro parse_annotation_AttributeError_short) simp
next
  assume "\<forall>l \<in> set (data_lines lines). length l \<le> 11"
    and "\<exists>l \<in> set (data_lines lines). is_Str (spec_pad l ! 1)"
  then show "\<exists>out. parse_annotation lines = Inr out"
    by (intro parse_annotation_some_name) simp_all
next
  assume "\<forall>l \<in> set (data_lines lines). length l \<le> 11"
    and "data_lines lines \<noteq> [] \<and> (\<forall>l \<in> set (data_lines lines). is_Str (spec_pad l ! 1))"
  then show "parse_annotation lines = Inr (spec_annotations (map spec_pad (data_lines lines)))"
    by (intro parse_annotation_padded) simp_all
next
  fix e out assume "parse_annotation lines = Inl e"
  then show "parse_annotation lines \<noteq> Inr out" by simp
qed

theorem parser_error_cases_witness:
  "parse_annotation long_line_source = Inl ParserError
   \<and> parse_annotation wide_source \<noteq> Inl ParserError
   \<and> parse_annotation no_name_source = Inl AttributeError
   \<and> parse_annotation short_line_source =
       Inr [(''img1'', [(''bbox'', [Dict [(''bbox'', List [Num 1, Num 4, Num 3, Num 4, Num 3, Num 2, Num 1, Num 2])]]),
                        (''Species'', [Str ''cod'']), (''Confidence'', [NaN])])]
   \<and> parse_annotation text_coordinate_source =
       Inr [(''img1'', [(''bbox'', [Dict [(''bbox'', List [Str ''abc'', Num 4, Num 3, Num 4, Num 3, Num 2, Str ''abc'', Num 2])]]),
                        (''Species'', [Str ''cod'']), (''Confidence'', [Num 0.8])])]"
proof -
  have a: "parse_annotation long_line_source = Inl ParserError"
  proof -
    have "\<exists>l \<in> set (data_lines long_line_source). spec_width (data_lines long_line_source) < length l"
      by (simp add: long_line_source_def data_lines_def spec_width_def)
    with parser_error_cases [of long_line_source] show ?thesis by blast
  qed
  have b: "parse_annotation wide_source \<noteq> Inl ParserError"
  proof -
    have "\<not> (\<exists>l \<in> set (data_lines wide_source). spec_width (data_lines wide_source) < length l)"
      by (simp add: wide_source_def data_lines_def spec_width_def)
    with parser_error_cases [of wide_source] show ?thesis by blast
  qed
  have c: "parse_annotation no_name_source = Inl AttributeError"
  proof -
    have "\<forall>l \<in> set (data_lines no_name_source). length l \<le> 11"
      and "data_lines no_name_source \<noteq> []"
      and "\<forall>l \<in> set (data_lines no_name_source). \<not> is_Str (spec_pad l ! 1)"
      by (simp_all add: no_name_source_def data_lines_def spec_pad_def is_Str_def)
    with parser_error_cases [of no_name_source] show ?thesis by blast
  qed
  have d: "parse_annotation short_line_source =
       Inr [(''img1'', [(''bbox'', [Dict [(''bbox'', List [Num 1, Num 4, Num 3, Num 4, Num 3, Num 2, Num 1, Num 2])]]),
                        (''Species'', [Str ''cod'']), (''Confidence'', [NaN])])]"
  proof -
    have "\<forall>l \<in> set (data_lines short_line_source). length l \<le> 11"
      and "data_lines short_line_source \<noteq> []"
      and "\<forall>l \<in> set (data_lines short_line_source). is_Str (spec_pad l ! 1)"
      by (simp_all add: short_line_source_def data_lines_def spec_pad_def is_Str_def)
    with parser_error_cases [of short_line_source]
    have "parse_annotation short_line_source
            = Inr (spec_annotations (map spec_pad (data_lines short_line_source)))"
      by blast
    then show ?thesis
      by (simp add: short_line_source_def data_lines_def spec_pad_def spec_annotations_def
            spec_group_def spec_image_id_def spec_bbox_def str_replace.simps)
  qed
  have e: "parse_annotation text_coordinate_source =
       Inr [(''img1'', [(''bbox'', [Dict [(''bbox'', List [Str ''abc'', Num 4, Num 3, Num 4, Num 3, Num 2, Str ''abc'', Num 2])]]),
                        (''Species'', [Str ''cod'']), (''Confidence'', [Num 0.8])])]"
  proof -
    have "\<forall>l \<in> set (data_lines text_coordinate_source). length l \<le> 11"
      and "data_lines text_coordinate_source \<noteq> []"
      and "\<forall>l \<in> set (data_lines text_coordinate_source). is_Str (spec_pad l ! 1)"
      by (simp_all add: text_coordinate_source_def data_lines_def spec_pad_def is_Str_def)
    with parser_error_cases [of text_coordinate_source]
    have "parse_annotation text_coordinate_source
            = Inr (spec_annotations (map spec_pad (data_lines text_coordinate_source)))"
      by blast
    then show ?thesis
      by (simp add: text_coordinate_source_def data_lines_def spec_pad_def spec_annotations_def
            spec_group_def spec_image_id_def spec_bbox_def str_replace.simps)
  qed
  from a b c d e show ?thesis by (intro conjI)
qed

text \<open>
  C10. On a valid source the keys of the result are enumerated in strictly ascending
  lexicographic order: the list of keys is the sorted list of the set of image identifiers,
  so it does not depend on the order in which the identifiers first appear.
\<close>

theorem keys_in_sorted_order:
  "valid_source lines \<Longrightarrow>
   \<exists>out. parse_annotation lines = Inr out \<and>
     map fst out = sorted_list_of_set (spec_image_id ` set (data_lines lines)) \<and>
     sorted_wrt (<) (map fst out)"
proof -
  assume v: "valid_source lines"
  have k: "map fst (spec_annotations (data_lines lines))
           = sorted_list_of_set (spec_image_id ` set (data_lines lines))"
    by (simp only: keys_spec_annotations sorted_list_of_set_sort_remdups [symmetric] set_map)
  have "sorted_wrt (<) (sorted_list_of_set (spec_image_id ` set (data_lines lines)))"
    by (simp add: strict_sorted_iff)
  with k valid_source_parse [OF v] show ?thesis by simp
qed

theorem keys_in_sorted_order_witness:
  "valid_source three_line_source \<and>
   (\<exists>out. parse_annotation three_line_source = Inr out \<and>
      map fst out = sorted_list_of_set (spec_image_id ` set (data_lines three_line_source)) \<and>
      sorted_wrt (<) (map fst out) \<and> map fst out = [''a'', ''b''])"
proof -
  have v: "valid_source three_line_source"
    by (simp add: valid_source_def three_line_source_def data_lines_def valid_line_def is_Str_def)
  from keys_in_sorted_order [OF v] obtain out where
    o: "parse_annotation three_line_source = Inr out"
       "map fst out = sorted_list_of_set (spec_image_id ` set (data_lines three_line_source))"
       "sorted_wrt (<) (map fst out)" by blast
  have "parse_annotation three_line_source = Inr (spec_annotations (data_lines three_line_source))"
    using v by (rule valid_source_parse)
  with o(1) have "out = spec_annotations (data_lines three_line_source)" by simp
  then have "map fst out = sort (remdups (map spec_image_id (data_lines three_line_source)))"
    by (simp only: keys_spec_annotations)
  then have k: "map fst out = [''a'', ''b'']"
    by (simp add: three_line_source_def data_lines_def spec_image_id_def str_replace.simps)
  have "\<exists>out. parse_annotation three_line_source = Inr out \<and>
      map fst out = sorted_list_of_set (spec_image_id ` set (data_lines three_line_source)) \<and>
      sorted_wrt (<) (map fst out) \<and> map fst out = [''a'', ''b'']"
    using o k by (intro exI [of _ out] conjI)
  with v show ?thesis by (rule conjI)
qed

section \<open>Claims about the layer functions\<close>

text \<open>
  C5 holds for \<open>export_layer_to_geojson\<close> and \<open>send_layer_as_geojson_using_gdal_\<close> but
  not for \<open>send_layer_as_geojson\<close>, which compares the writer's status with the sentinel
  only to print a message and then goes on. With a writer that fails with code 2 and an
  endpoint that answers 200, the first two return the error mapping with the code, the
  third reads the temporary file, posts it and reports success.
\<close>

theorem writer_error_ignored_by_send:
  "fst (export_layer_to_geojson (sample_env 2 ok_response) (Some sample_layer) ''/out''
          empty_state)
     = Inr (PDict [(''error'', PStr ''Failed to export layer. Error code: 2'')])
   \<and> fst (send_layer_as_geojson_using_gdal (sample_env 2 ok_response) (Some sample_layer)
            (PStr ''http://api'') empty_state)
     = Inr (PDict [(''error'', PStr ''Failed to export layer to GPKG. Error code: 2'')])
   \<and> fst (send_layer_as_geojson (sample_env 2 ok_response) (Some sample_layer)
            (PStr ''http://api'') empty_state)
     = Inr (PDict [(''success'', PStr ''Layer successfully sent to the API''),
                   (''response'', PJson ())])"
  using export_at_writer_error gdal_at_writer_error send_at_writer_error by simp

text \<open>
  C6 as the specification states it fails for a response with status 200 whose body is not
  a JSON document: \<open>response.json()\<close> raises and no mapping is returned.
\<close>

theorem upload_plain_body_counterexample:
  "status_code plain_response = 200
   \<and> fst (send_layer_as_geojson (sample_env 0 plain_response) (Some sample_layer)
            (PStr ''http://api'') empty_state)
     = Inl JSONDecodeError"
  using send_at_plain_body by (simp add: plain_response_def)

text \<open>
  C6, amended. Let \<open>f\<close> be one of the two upload functions, called on a vector layer (and,
  for the one that converts through a GeoPackage, with every step before the request
  succeeding), and let \<open>r\<close> be the response to the request. With status 200 and a body that
  is a JSON document the result is the success mapping whose \<open>response\<close> is the parsed
  document; with status 200 and any other body the decoder's error is raised; with any
  other status the result is the error mapping with the status code in its message and the
  body text, unparsed, as \<open>response\<close>.
\<close>

theorem upload_result_by_status:
  assumes "layer_type l = VectorLayer"
    and "(f = send_layer_as_geojson \<and> r = post env url (geojson_sent env l))
         \<or> (f = send_layer_as_geojson_using_gdal \<and> gdal_reaches_upload env l
             \<and> r = post env url (gdal_geojson_sent env))"
  shows "(status_code r = 200 \<and> json_body r = Some j \<longrightarrow>
            fst (f env (Some l) url st)
              = Inr (PDict [(''success'', PStr ''Layer successfully sent to the API''),
                            (''response'', PJson j)]))
         \<and> (status_code r = 200 \<and> json_body r = None \<longrightarrow>
              fst (f env (Some l) url st) = Inl JSONDecodeError)
         \<and> (status_code r \<noteq> 200 \<longrightarrow>
              fst (f env (Some l) url st)
                = Inr (PDict [(''error'',
                         PStr (''Failed to send GeoJSON to API. Status code: ''
                               @ str_int (status_code r))),
                       (''response'', PStr (body_text r))]))"
proof -
  have "fst (f env (Some l) url st) = api_result r"
    using assms send_layer_as_geojson_result [of l env url st]
      send_layer_using_gdal_result [of l env url st] by auto
  then show ?thesis using api_result_cases [of r j] by simp
qed

theorem upload_result_by_status_witness:
  "layer_type sample_layer = VectorLayer
   \<and> gdal_reaches_upload (sample_env 0 ok_response) sample_layer
   \<and> fst (send_layer_as_geojson (sample_env 0 error_response) (Some sample_layer)
            (PStr ''http://api'') empty_state)
     = Inr (PDict [(''error'', PStr ''Failed to send GeoJSON to API. Status code: 404''),
                   (''response'', PStr ''Not Found'')])
   \<and> fst (send_layer_as_geojson_using_gdal (sample_env 0 ok_response) (Some sample_layer)
            (PStr ''http://api'') empty_state)
     = Inr (PDict [(''success'', PStr ''Layer successfully sent to the API''),
                   (''response'', PJson ())])"
proof -
  have v: "layer_type sample_layer = VectorLayer" by (simp add: sample_layer_def)
  have g: "gdal_reaches_upload (sample_env 0 ok_response) sample_layer"
    by (simp add: gdal_reaches_upload_def sample_env_def NoError_def)
  have r1: "post (sample_env 0 error_response) (PStr ''http://api'')
              (geojson_sent (sample_env 0 error_response) sample_layer) = error_response"
    by (simp add: sample_env_def)
  have r2: "post (sample_env 0 ok_response) (PStr ''http://api'')
              (gdal_geojson_sent (sample_env 0 ok_response)) = ok_response"
    by (simp add: sample_env_def)
  have a: "fst (send_layer_as_geojson (sample_env 0 error_response) (Some sample_layer)
            (PStr ''http://api'') empty_state)
     = Inr (PDict [(''error'', PStr ''Failed to send GeoJSON to API. Status code: 404''),
                   (''response'', PStr ''Not Found'')])"
    using upload_result_by_status [of sample_layer send_layer_as_geojson error_response
        "sample_env 0 error_response" "PStr ''http://api''" undefined empty_state] v r1
    by (simp add: error_response_def str_int_def str_nat.simps)
  have b: "fst (send_layer_as_geojson_using_gdal (sample_env 0 ok_response) (Some sample_layer)
            (PStr ''http://api'') empty_state)
     = Inr (PDict [(''success'', PStr ''Layer successfully sent to the API''),
                   (''response'', PJson ())])"
    using upload_result_by_status [of sample_layer send_layer_as_geojson_using_gdal ok_response
        "sample_env 0 ok_response" "PStr ''http://api''" "()" empty_state] v g r2
    by (simp add: ok_response_def)
  from v g a b show ?thesis by simp
qed

text \<open>
  C7. Without a layer, \<open>get_layer_info\<close> returns exactly the mapping with the one key
  \<open>error\<close> and the message \<open>No active layer selected\<close>; it returns before any method of
  the layer is called, so nothing else happens and nothing is raised.
\<close>

theorem layer_info_without_layer:
  "get_layer_info None = PDict [(''error'', PStr ''No active layer selected'')]"
  by (simp add: get_layer_info_def)

text \<open>
  C9. In \<open>convert_to_geojson_using_gdal\<close> the name \<open>api_endpoint\<close> is bound neither among
  the local names of the function nor at module level, so its lookup raises \<open>NameError\<close>.
  Every call that opens the input, finds the GeoJSON driver and creates the output reaches
  the request and ends in that error; whatever the call, the outcome is that error or one
  of the texts returned before, and it does not depend on the HTTP client.
\<close>

theorem convert_upload_unbound:
  "lookup_name ''api_endpoint'' (convert_locals input_path output_path input_ds geojson_data)
     = Inl NameError
   \<and> (ogr_Open env input_path = Some input_ds \<and> GetDriverByName env ''GeoJSON'' \<and>
       CreateDataSource env
         (case output_path0 of None \<Rightarrow> uuid4_hex env @ ''.geojson'' | Some p \<Rightarrow> p) \<longrightarrow>
       fst (convert_to_geojson_using_gdal env input_path output_path0 st) = Inl NameError)
   \<and> (fst (convert_to_geojson_using_gdal env input_path output_path0 st) = Inl NameError
       \<or> (\<exists>s. fst (convert_to_geojson_using_gdal env input_path output_path0 st)
                 = Inr (PStr s)))
   \<and> (\<forall>p. convert_to_geojson_using_gdal (env\<lparr>post := p\<rparr>) input_path output_path0 st
            = convert_to_geojson_using_gdal env input_path output_path0 st)"
proof (intro conjI allI impI)
  show "lookup_name ''api_endpoint'' (convert_locals input_path output_path input_ds geojson_data)
          = Inl NameError"
    by (rule lookup_api_endpoint)
next
  assume "ogr_Open env input_path = Some input_ds \<and> GetDriverByName env ''GeoJSON'' \<and>
       CreateDataSource env
         (case output_path0 of None \<Rightarrow> uuid4_hex env @ ''.geojson'' | Some p \<Rightarrow> p)"
  then show "fst (convert_to_geojson_using_gdal env input_path output_path0 st) = Inl NameError"
    by (intro convert_reaches_upload) simp_all
next
  show "fst (convert_to_geojson_using_gdal env input_path output_path0 st) = Inl NameError
       \<or> (\<exists>s. fst (convert_to_geojson_using_gdal env input_path output_path0 st)
                 = Inr (PStr s))"
    by (rule convert_outcomes)
next
  fix p
  show "convert_to_geojson_using_gdal (env\<lparr>post := p\<rparr>) input_path output_path0 st
            = convert_to_geojson_using_gdal env input_path output_path0 st"
    by (rule convert_ignores_post)
qed

theorem convert_upload_unbound_witness:
  "ogr_Open (sample_env 0 ok_response) ''in.shp'' = Some []
   \<and> GetDriverByName (sample_env 0 ok_response) ''GeoJSON''
   \<and> CreateDataSource (sample_env 0 ok_response)
        (uuid4_hex (sample_env 0 ok_response) @ ''.geojson'')
   \<and> fst (convert_to_geojson_using_gdal (sample_env 0 ok_response) ''in.shp'' None empty_state)
       = Inl NameError"
proof -
  have a: "ogr_Open (sample_env 0 ok_response) ''in.shp'' = Some []"
    and b: "GetDriverByName (sample_env 0 ok_response) ''GeoJSON''"
    and c: "CreateDataSource (sample_env 0 ok_response)
              (uuid4_hex (sample_env 0 ok_response) @ ''.geojson'')"
    by (simp_all add: sample_env_def)
  note t = convert_upload_unbound [of "''in.shp''" "[]" "[]" "[]" "sample_env 0 ok_response" None
      empty_state]
  have d: "ogr_Open (sample_env 0 ok_response) ''in.shp'' = Some [] \<and>
       GetDriverByName (sample_env 0 ok_response) ''GeoJSON'' \<and>
       CreateDataSource (sample_env 0 ok_response)
         (case None of None \<Rightarrow> uuid4_hex (sample_env 0 ok_response) @ ''.geojson'' | Some p \<Rightarrow> p)"
    using a b c by simp
  from t have "ogr_Open (sample_env 0 ok_response) ''in.shp'' = Some [] \<and>
       GetDriverByName (sample_env 0 ok_response) ''GeoJSON'' \<and>
       CreateDataSource (sample_env 0 ok_response)
         (case None of None \<Rightarrow> uuid4_hex (sample_env 0 ok_response) @ ''.geojson'' | Some p \<Rightarrow> p)
      \<longrightarrow> fst (convert_to_geojson_using_gdal (sample_env 0 ok_response) ''in.shp'' None empty_state)
          = Inl NameError"
    by (elim conjE)
  with d have "fst (convert_to_geojson_using_gdal (sample_env 0 ok_response) ''in.shp'' None empty_state)
          = Inl NameError"
    by (rule mp [rotated])
  with a b c show ?thesis by (intro conjI)
qed

end
